theory Spec2Isabelle
  imports Main "HOL-Library.AList"
begin

section \<open>Python string primitives used by the menu code\<close>

text \<open>
  Python strings are modelled as \<^typ>\<open>string\<close>; a character stands for a code point
  below 256.  \<open>str.strip()\<close> removes the characters for which \<open>str.isspace()\<close> holds,
  \<open>str.lower()\<close> maps the upper-case letters of that range to lower case.
\<close>

definition py_isspace :: "char \<Rightarrow> bool" where
  "py_isspace c = ((of_char c :: nat) \<in> {9, 10, 11, 12, 13, 28, 29, 30, 31, 32, 133, 160})"

definition py_strip :: "string \<Rightarrow> string" where
  "py_strip s = rev (dropWhile py_isspace (rev (dropWhile py_isspace s)))"

definition py_lower_char :: "char \<Rightarrow> char" where
  "py_lower_char c =
     (let n = (of_char c :: nat)
      in if (65 \<le> n \<and> n \<le> 90) \<or> (192 \<le> n \<and> n \<le> 222 \<and> n \<noteq> 215)
         then char_of (n + 32) else c)"

definition py_lower :: "string \<Rightarrow> string" where
  "py_lower s = map py_lower_char s"

definition startswith :: "string \<Rightarrow> string \<Rightarrow> bool" where
  "startswith s p = (take (length p) s = p)"

text \<open>
  \<open>int(text, base)\<close>: optional surrounding whitespace, an optional sign, for base 16 an
  optional \<open>0x\<close> prefix, then digits of the base, where single underscores may separate
  digits.  Anything else raises \<open>ValueError\<close>, which is the value \<open>None\<close> here.
  The digits are those of the code points below 256, \<open>0-9\<close>, \<open>a-z\<close> and \<open>A-Z\<close>;
  the decimal digits of other scripts, which \<open>int\<close> reads as well, are not characters
  of \<^typ>\<open>string\<close>.
\<close>

definition int_isspace :: "char \<Rightarrow> bool" where
  "int_isspace c = ((of_char c :: nat) \<in> {9, 10, 11, 12, 13, 32, 133, 160})"

definition digit_value :: "char \<Rightarrow> nat" where
  "digit_value c =
     (let n = (of_char c :: nat)
      in if 48 \<le> n \<and> n \<le> 57 then n - 48
         else if 97 \<le> n \<and> n \<le> 122 then n - 87
         else if 65 \<le> n \<and> n \<le> 90 then n - 55
         else 37)"

definition literal_char :: "nat \<Rightarrow> char \<Rightarrow> bool" where
  "literal_char base c = (digit_value c < base \<or> c = CHR ''_'')"

fun underscores_ok :: "string \<Rightarrow> bool" where
  "underscores_ok [] = True"
| "underscores_ok [c] = (c \<noteq> CHR ''_'')"
| "underscores_ok (c # d # cs) =
     (\<not> (c = CHR ''_'' \<and> d = CHR ''_'') \<and> underscores_ok (d # cs))"

definition digits_value :: "nat \<Rightarrow> string \<Rightarrow> int" where
  "digits_value base ds =
     foldl (\<lambda>acc c. acc * int base + int (digit_value c)) 0
       (filter (\<lambda>c. c \<noteq> CHR ''_'') ds)"

definition skip_sign :: "string \<Rightarrow> string" where
  "skip_sign s =
     (case s of [] \<Rightarrow> s
      | c # r \<Rightarrow> if c = CHR ''+'' \<or> c = CHR ''-'' then r else s)"

definition skip_prefix :: "nat \<Rightarrow> string \<Rightarrow> string" where
  "skip_prefix base s =
     (case s of
        c0 # c1 # r \<Rightarrow>
          if base = 16 \<and> c0 = CHR ''0'' \<and> (c1 = CHR ''x'' \<or> c1 = CHR ''X'')
          then (case r of [] \<Rightarrow> r | u # r' \<Rightarrow> if u = CHR ''_'' then r' else r)
          else s
      | _ \<Rightarrow> s)"

definition py_int :: "nat \<Rightarrow> string \<Rightarrow> int option" where
  "py_int base s =
     (let s1 = dropWhile int_isspace s;
          negative = (s1 \<noteq> [] \<and> hd s1 = CHR ''-'');
          s3 = skip_prefix base (skip_sign s1);
          body = takeWhile (literal_char base) s3;
          rest = dropWhile (literal_char base) s3
      in if s3 \<noteq> [] \<and> hd s3 = CHR ''_'' then None
         else if \<not> underscores_ok body then None
         else if body = [] then None
         else if dropWhile int_isspace rest \<noteq> [] then None
         else Some ((if negative then - 1 else 1) * digits_value base body))"

text \<open>\<open>str(n)\<close> for a natural number, as the f-strings \<open>f"Color {n}"\<close> need it.\<close>

fun str_nat :: "nat \<Rightarrow> string" where
  "str_nat n =
     (if n < 10 then [char_of (48 + n)]
      else str_nat (n div 10) @ [char_of (48 + n mod 10)])"

declare str_nat.simps [simp del]

section \<open>Color values\<close>

text \<open>
  \<open>normalize_hex_color\<close>: the argument is a string here; a value that is not a string
  (or is \<open>None\<close>) makes the source return \<open>None\<close> at its first test, which is what
  the callers below do before they call this function.
\<close>

definition normalize_hex_color :: "string \<Rightarrow> string option" where
  "normalize_hex_color v =
     (if v = [] then None
      else let color = py_lower (py_strip v)
           in if color = [] then None
              else let color = (if startswith color ''#'' then color else CHR ''#'' # color)
                   in if length color \<noteq> 7 then None
                      else (case py_int 16 (drop 1 color) of
                              None \<Rightarrow> None
                            | Some _ \<Rightarrow> Some color))"

record color_pair =
  background :: string
  foreground :: string

text \<open>
  \<open>sanitize_color_pair\<close>: the dict \<open>{"background": b, "text": t}\<close> is the record
  \<^typ>\<open>color_pair\<close> (field \<open>foreground\<close> is the key \<open>"text"\<close>); \<open>None\<close> is \<open>None\<close>.
\<close>

definition sanitize_color_pair :: "color_pair option \<Rightarrow> color_pair option" where
  "sanitize_color_pair cp =
     (case cp of
        None \<Rightarrow> None
      | Some p \<Rightarrow>
          (case (normalize_hex_color (background p), normalize_hex_color (foreground p)) of
             (Some b, Some t) \<Rightarrow> Some \<lparr>background = b, foreground = t\<rparr>
           | _ \<Rightarrow> None))"

text \<open>Vocabulary for the statements about colors.\<close>

definition lower_hex_digit :: "char \<Rightarrow> bool" where
  \<comment> \<open>one of \<open>0-9\<close>, \<open>a-f\<close>\<close>
  "lower_hex_digit c =
     (let n = (of_char c :: nat) in (48 \<le> n \<and> n \<le> 57) \<or> (97 \<le> n \<and> n \<le> 102))"


definition is_rrggbb :: "string \<Rightarrow> bool" where
  "is_rrggbb v = (length v = 7 \<and> hd v = CHR ''#'' \<and> list_all lower_hex_digit (tl v))"

definition after_marker :: "string \<Rightarrow> string" where
  "after_marker s = (if startswith s ''#'' then drop 1 s else s)"


definition color_body :: "string \<Rightarrow> string" where
  \<comment> \<open>the trimmed, lower-cased input without its leading \<open>#\<close>\<close>
  "color_body s = after_marker (py_lower (py_strip s))"


section \<open>The color palette of the category dialog\<close>

text \<open>
  A palette entry is the dict \<open>{"name": n, "background": b, "text": t}\<close>.  A key that
  is missing or empty is falsy in the source; here it is the empty string.
\<close>

record palette_entry = color_pair +
  name :: string

definition DEFAULT_COLOR_PAIRS :: "palette_entry list" where
  "DEFAULT_COLOR_PAIRS =
     [\<lparr>background = ''#034e68'', foreground = ''#caf0f8'', name = ''Teal Glow''\<rparr>,
      \<lparr>background = ''#6f1d1b'', foreground = ''#ffe5d9'', name = ''Amber Pop''\<rparr>,
      \<lparr>background = ''#240046'', foreground = ''#f8f9fa'', name = ''Purple Mist''\<rparr>,
      \<lparr>background = ''#283618'', foreground = ''#fefae0'', name = ''Forest Tones''\<rparr>,
      \<lparr>background = ''#2b2d42'', foreground = ''#edf2f4'', name = ''Slate Shine''\<rparr>]"

definition pair_key :: "palette_entry \<Rightarrow> string \<times> string" where
  "pair_key c = (py_lower (background c), py_lower (foreground c))"

definition has_pair :: "palette_entry \<Rightarrow> bool" where
  \<comment> \<open>\<open>bg and text\<close>: both keys present and not empty\<close>
  "has_pair c = (background c \<noteq> [] \<and> foreground c \<noteq> [])"

definition seen_pairs :: "palette_entry list \<Rightarrow> (string \<times> string) set" where
  "seen_pairs palette = set (map pair_key (filter has_pair palette))"

text \<open>
  The loop over \<open>DEFAULT_COLOR_PAIRS\<close>: \<open>continue\<close> on an entry without a pair, append an
  entry whose pair was not seen, and \<open>break\<close> once the palette has four entries.
\<close>

fun add_defaults ::
  "palette_entry list \<Rightarrow> palette_entry list \<Rightarrow> (string \<times> string) set \<Rightarrow> palette_entry list"
where
  "add_defaults [] palette seen = palette"
| "add_defaults (d # ds) palette seen =
     (if \<not> has_pair d then add_defaults ds palette seen
      else let fresh = (pair_key d \<notin> seen);
               palette' = (if fresh then palette @ [d] else palette);
               seen' = (if fresh then insert (pair_key d) seen else seen)
           in if length palette' \<ge> 4 then palette' else add_defaults ds palette' seen')"

definition filler_entry :: "nat \<Rightarrow> palette_entry" where
  \<comment> \<open>the entry appended when the palette has \<open>n\<close> entries\<close>
  "filler_entry n =
     \<lparr>background = ''#034e68'', foreground = ''#caf0f8'', name = ''Color '' @ str_nat (n + 1)\<rparr>"

function add_fillers :: "palette_entry list \<Rightarrow> palette_entry list" where
  "add_fillers palette =
     (if length palette < 4 then add_fillers (palette @ [filler_entry (length palette)])
      else palette)"
  by pat_completeness auto
termination
  by (relation "measure (\<lambda>palette. 4 - length palette)") auto

declare add_fillers.simps [simp del]

definition build_palette_entries :: "palette_entry list \<Rightarrow> palette_entry list" where
  "build_palette_entries available_colors =
     add_fillers (add_defaults DEFAULT_COLOR_PAIRS available_colors (seen_pairs available_colors))"

text \<open>
  Vocabulary for the statements about the palette: the built-in defaults, in order, whose
  pair is neither among the pairs seen nor the pair of an earlier default.
\<close>

fun unseen_defaults :: "palette_entry list \<Rightarrow> (string \<times> string) set \<Rightarrow> palette_entry list" where
  "unseen_defaults [] seen = []"
| "unseen_defaults (d # ds) seen =
     (if has_pair d \<and> pair_key d \<notin> seen then d # unseen_defaults ds (insert (pair_key d) seen)
      else unseen_defaults ds seen)"

section \<open>The menu tree and the application state\<close>

text \<open>
  An item is the dict with the keys \<open>label\<close>, \<open>cmd\<close>, \<open>info\<close>, \<open>category\<close> and, when
  it comes from the item dialog, \<open>pause\<close>.  A category is the dict with \<open>expanded\<close>,
  \<open>items\<close> and the optional keys \<open>column\<close> and \<open>colors\<close>.  \<open>menu_data\<close> is an
  insertion-ordered dict from category names to categories: an association list.
\<close>

record item =
  label :: string
  cmd :: string
  info :: string
  category :: string
  pause :: "bool option"

record category_data =
  expanded :: bool
  column :: "int option"
  colors :: "color_pair option"
  items :: "item list"

type_synonym menu = "(string \<times> category_data) list"

datatype display_item = Category string | Item item

text \<open>What \<open>save_menu_data\<close> writes to \<open>menus.json\<close>.\<close>

record saved_menu =
  saved_categories :: menu
  saved_title :: string
  saved_columns :: int
  saved_custom_colors :: "palette_entry list"

text \<open>
  The fields of \<open>MenuMaker\<close> the operations below read or write.  \<open>menu_container\<close> says
  whether the container widget is mounted; \<open>config_file\<close> is the content of the
  configuration file and \<open>saves\<close> counts the writes to it (writes are taken to succeed).
  Assignments to the reactive attributes are plain assignments here; the explicit calls
  of \<open>update_menu_display\<close> that follow them in the source are modelled.
\<close>

record app =
  menu_data :: menu
  column_count :: int
  max_columns :: int
  current_index :: int
  display_items :: "display_item list"
  menu_container :: bool
  custom_colors :: "palette_entry list"
  app_title :: string
  config_file :: "saved_menu option"
  saves :: nat

definition save_menu_data :: "app \<Rightarrow> app" where
  "save_menu_data s =
     s\<lparr>config_file :=
          Some \<lparr>saved_categories = menu_data s, saved_title = app_title s,
                saved_columns = column_count s, saved_custom_colors = custom_colors s\<rparr>,
       saves := saves s + 1\<rparr>"

definition clamp_column_count :: "app \<Rightarrow> int \<Rightarrow> int" where
  "clamp_column_count s count = max 1 (min (max_columns s) count)"

definition normalize_column_value :: "app \<Rightarrow> int \<Rightarrow> int" where
  "normalize_column_value s v = max 1 (min (column_count s) v)"

definition get_column :: "category_data \<Rightarrow> int" where
  \<comment> \<open>\<open>category_data.get('column', 1)\<close>\<close>
  "get_column c = (case column c of None \<Rightarrow> 1 | Some v \<Rightarrow> v)"

definition ensure_category_columns :: "app \<Rightarrow> bool \<times> app" where
  "ensure_category_columns s =
     (let changed = list_ex (\<lambda>e. get_column (snd e) \<noteq> normalize_column_value s (get_column (snd e)))
                      (menu_data s);
          fix = (\<lambda>c. if get_column c \<noteq> normalize_column_value s (get_column c)
                      then c\<lparr>column := Some (normalize_column_value s (get_column c))\<rparr> else c)
      in (changed, s\<lparr>menu_data := map (\<lambda>e. (fst e, fix (snd e))) (menu_data s)\<rparr>))"

definition cleanup_empty_categories :: "app \<Rightarrow> app" where
  "cleanup_empty_categories s =
     (let updated_data = filter (\<lambda>e. items (snd e) \<noteq> []) (menu_data s)
      in if updated_data \<noteq> menu_data s then save_menu_data (s\<lparr>menu_data := updated_data\<rparr>) else s)"

definition update_highlighting :: "app \<Rightarrow> app" where
  "update_highlighting s =
     (if display_items s = [] then s
      else s\<lparr>current_index :=
                max 0 (min (current_index s) (int (length (display_items s)) - 1))\<rparr>)"

definition flatten_category :: "string \<times> category_data \<Rightarrow> display_item list" where
  "flatten_category e =
     Category (fst e) # (if expanded (snd e) then map Item (items (snd e)) else [])"

definition build_display :: "int \<Rightarrow> menu \<Rightarrow> display_item list" where
  "build_display n md =
     concat (map (\<lambda>k. concat (map flatten_category (filter (\<lambda>e. column (snd e) = Some k) md)))
       [1..n])"

definition update_menu_display :: "app \<Rightarrow> app" where
  "update_menu_display s =
     (if \<not> menu_container s then s
      else let s1 = cleanup_empty_categories (s\<lparr>display_items := []\<rparr>);
               columns_changed =
                 list_ex (\<lambda>e. column (snd e) \<noteq> Some (normalize_column_value s1 (get_column (snd e))))
                   (menu_data s1);
               s2 = s1\<lparr>menu_data :=
                          map (\<lambda>e. (fst e,
                                 (snd e)\<lparr>column := Some (normalize_column_value s1 (get_column (snd e)))\<rparr>))
                            (menu_data s1)\<rparr>;
               s3 = (if columns_changed then save_menu_data s2 else s2);
               s4 = s3\<lparr>display_items := build_display (column_count s3) (menu_data s3)\<rparr>
           in update_highlighting s4)"

definition set_column_count :: "app \<Rightarrow> int \<Rightarrow> bool \<Rightarrow> bool \<Rightarrow> bool \<Rightarrow> bool \<times> app" where
  "set_column_count s count apply_layout persist save_on_change =
     (let normalized = clamp_column_count s count;
          changed = (normalized \<noteq> column_count s);
          (columns_changed, s2) = ensure_category_columns (s\<lparr>column_count := normalized\<rparr>);
          s3 = (if persist \<or> (save_on_change \<and> (changed \<or> columns_changed))
                then save_menu_data s2 else s2);
          s4 = (if apply_layout \<and> menu_container s3 then update_menu_display s3 else s3)
      in (changed \<or> columns_changed, s4))"

subsection \<open>Cursor movement\<close>

definition action_cursor_up :: "app \<Rightarrow> app" where
  "action_cursor_up s =
     (if display_items s = [] then s
      else let new_index = (current_index s - 1) mod int (length (display_items s))
           in if new_index \<noteq> current_index s
              then update_highlighting (s\<lparr>current_index := new_index\<rparr>) else s)"

definition action_cursor_down :: "app \<Rightarrow> app" where
  "action_cursor_down s =
     (if display_items s = [] then s
      else let new_index = (current_index s + 1) mod int (length (display_items s))
           in if new_index \<noteq> current_index s
              then update_highlighting (s\<lparr>current_index := new_index\<rparr>) else s)"

fun find_index_from :: "('a \<Rightarrow> bool) \<Rightarrow> 'a list \<Rightarrow> int \<Rightarrow> int option" where
  "find_index_from P [] i = None"
| "find_index_from P (x # xs) i = (if P x then Some i else find_index_from P xs (i + 1))"

definition restore_position_to_category :: "app \<Rightarrow> string \<Rightarrow> app" where
  "restore_position_to_category s category_name =
     (case find_index_from (\<lambda>d. d = Category category_name) (display_items s) 0 of
        None \<Rightarrow> s
      | Some i \<Rightarrow> s\<lparr>current_index := i\<rparr>)"

definition navigate_to_item :: "app \<Rightarrow> item \<Rightarrow> app" where
  "navigate_to_item s target_item =
     (case find_index_from
             (\<lambda>d. case d of Item it \<Rightarrow> label it = label target_item \<and> cmd it = cmd target_item
                   | Category _ \<Rightarrow> False)
             (display_items s) 0 of
        None \<Rightarrow> s
      | Some i \<Rightarrow> update_highlighting (s\<lparr>current_index := i\<rparr>))"

subsection \<open>Adding, updating and deleting items\<close>

definition new_category :: "app \<Rightarrow> category_data" where
  "new_category s =
     \<lparr>expanded = True, column = Some (normalize_column_value s 1), colors = None, items = []\<rparr>"

definition append_item :: "string \<Rightarrow> item \<Rightarrow> menu \<Rightarrow> menu" where
  \<comment> \<open>\<open>updated_data[category]['items'].append(item)\<close>\<close>
  "append_item k it md = AList.map_entry k (\<lambda>c. c\<lparr>items := items c @ [it]\<rparr>) md"

definition add_new_item :: "app \<Rightarrow> item \<Rightarrow> app" where
  "add_new_item s item_data =
     (let updated_data =
            (if map_of (menu_data s) (category item_data) = None
             then menu_data s @ [(category item_data, new_category s)] else menu_data s);
          updated_data = append_item (category item_data) item_data updated_data
      in update_menu_display (save_menu_data (s\<lparr>menu_data := updated_data\<rparr>)))"

fun pop_first :: "(item \<Rightarrow> bool) \<Rightarrow> item list \<Rightarrow> item list option" where
  "pop_first P [] = None"
| "pop_first P (x # xs) = (if P x then Some xs else map_option ((#) x) (pop_first P xs))"

fun pop_from_tree :: "(item \<Rightarrow> bool) \<Rightarrow> menu \<Rightarrow> menu option" where
  "pop_from_tree P [] = None"
| "pop_from_tree P (e # es) =
     (case pop_first P (items (snd e)) of
        Some its \<Rightarrow> Some ((fst e, (snd e)\<lparr>items := its\<rparr>) # es)
      | None \<Rightarrow> map_option ((#) e) (pop_from_tree P es))"

definition update_item :: "app \<Rightarrow> item \<Rightarrow> item \<Rightarrow> app" where
  "update_item s old_item new_item =
     (case pop_from_tree (\<lambda>it. label it = label old_item \<and> cmd it = cmd old_item) (menu_data s) of
        None \<Rightarrow> s
      | Some updated_data \<Rightarrow>
          let updated_data =
                (if map_of updated_data (category new_item) = None
                 then updated_data @ [(category new_item, new_category s)] else updated_data);
              updated_data = append_item (category new_item) new_item updated_data;
              updated_data = filter (\<lambda>e. items (snd e) \<noteq> []) updated_data;
              s1 = update_menu_display (save_menu_data (s\<lparr>menu_data := updated_data\<rparr>))
          in navigate_to_item s1 new_item)"

text \<open>
  \<open>self.display_items[self.current_index]\<close>: a negative index counts from the end, and an
  index below \<open>-len\<close> raises \<open>IndexError\<close>.  The guard before it has excluded the
  indices from \<open>len\<close> on.
\<close>

definition py_index :: "'a list \<Rightarrow> int \<Rightarrow> 'a option" where
  "py_index xs i =
     (let n = int (length xs)
      in if 0 \<le> i \<and> i < n then Some (xs ! nat i)
         else if - n \<le> i \<and> i < 0 then Some (xs ! nat (n + i))
         else None)"

text \<open>\<open>action_delete_item\<close>; the result \<open>None\<close> is the \<open>IndexError\<close>.\<close>

definition action_delete_item :: "app \<Rightarrow> app option" where
  "action_delete_item s =
     (if display_items s = [] \<or> current_index s \<ge> int (length (display_items s)) then Some s
      else case py_index (display_items s) (current_index s) of
        None \<Rightarrow> None
      | Some (Category _) \<Rightarrow> Some s
      | Some (Item item_data) \<Rightarrow>
          (case map_of (menu_data s) (category item_data) of
             None \<Rightarrow> Some s
           | Some c \<Rightarrow>
               if item_data \<notin> set (items c) then Some s
               else let its = remove1 item_data (items c);
                        updated_data =
                          (if its = [] then AList.delete (category item_data) (menu_data s)
                           else AList.update (category item_data) (c\<lparr>items := its\<rparr>) (menu_data s));
                        s1 = update_menu_display (save_menu_data (s\<lparr>menu_data := updated_data\<rparr>))
                    in Some (if current_index s1 \<ge> int (length (display_items s1)) - 1
                             then s1\<lparr>current_index := max 0 (int (length (display_items s1)) - 2)\<rparr>
                             else s1)))"

section \<open>Vocabulary for the statements about the tree\<close>

text \<open>
  What the two column passes do to one entry of the tree: \<open>settle\<close> is the step of
  \<open>ensure_category_columns\<close> (it writes the column only when the value read differs from
  the normalized one), \<open>place\<close> the step of \<open>update_menu_display\<close> (it always leaves the
  normalized column stored).  \<open>off_column\<close> and \<open>misplaced\<close> are their tests.
\<close>

definition settle :: "int \<Rightarrow> string \<times> category_data \<Rightarrow> string \<times> category_data" where
  "settle n e =
     (fst e, if get_column (snd e) \<noteq> max 1 (min n (get_column (snd e)))
             then (snd e)\<lparr>column := Some (max 1 (min n (get_column (snd e))))\<rparr> else snd e)"

definition off_column :: "int \<Rightarrow> string \<times> category_data \<Rightarrow> bool" where
  "off_column n e = (get_column (snd e) \<noteq> max 1 (min n (get_column (snd e))))"

definition place :: "int \<Rightarrow> string \<times> category_data \<Rightarrow> string \<times> category_data" where
  "place n e = (fst e, (snd e)\<lparr>column := Some (max 1 (min n (get_column (snd e))))\<rparr>)"

definition misplaced :: "int \<Rightarrow> string \<times> category_data \<Rightarrow> bool" where
  "misplaced n e = (column (snd e) \<noteq> Some (max 1 (min n (get_column (snd e)))))"

text \<open>The tree \<open>action_delete_item\<close> builds once it has found the item in its category.\<close>

definition pruned :: "item \<Rightarrow> category_data \<Rightarrow> menu \<Rightarrow> menu" where
  "pruned it c md =
     (if remove1 it (items c) = [] then AList.delete (category it) md
      else AList.update (category it) (c\<lparr>items := remove1 it (items c)\<rparr>) md)"

text \<open>The invariants I2 and I4 of the data model, and I1.\<close>

definition no_empty_category :: "menu \<Rightarrow> bool" where
  "no_empty_category md = list_all (\<lambda>e. items (snd e) \<noteq> []) md"

definition items_owned :: "menu \<Rightarrow> bool" where
  "items_owned md = list_all (\<lambda>e. list_all (\<lambda>it. category it = fst e) (items (snd e))) md"

definition unique_names :: "menu \<Rightarrow> bool" where
  "unique_names md = distinct (map fst md)"

subsection \<open>A small application state for the examples\<close>

definition htop_item :: item where
  "htop_item =
     \<lparr>label = ''System Monitor'', cmd = ''htop'', info = ''Interactive process viewer'',
      category = ''System Tools'', pause = None\<rparr>"

definition vim_tools_item :: item where
  "vim_tools_item =
     \<lparr>label = ''Editor'', cmd = ''vim'', info = ''Text editor'',
      category = ''System Tools'', pause = Some False\<rparr>"

definition vim_dev_item :: item where
  "vim_dev_item =
     \<lparr>label = ''Editor'', cmd = ''vim'', info = ''Text editor'',
      category = ''Dev'', pause = Some False\<rparr>"

definition example_menu :: menu where
  "example_menu =
     [(''System Tools'',
        \<lparr>expanded = True, column = Some 1, colors = None, items = [htop_item, vim_tools_item]\<rparr>),
      (''Dev'',
        \<lparr>expanded = True, column = Some 3, colors = None, items = [vim_dev_item]\<rparr>)]"

definition example_app :: app where
  "example_app =
     \<lparr>menu_data = example_menu, column_count = 3, max_columns = 6, current_index = 4,
      display_items =
        [Category ''System Tools'', Item htop_item, Item vim_tools_item,
         Category ''Dev'', Item vim_dev_item],
      menu_container = True, custom_colors = DEFAULT_COLOR_PAIRS,
      app_title = ''Menu Maker'', config_file = None, saves = 0\<rparr>"

section \<open>Editing a category\<close>

text \<open>
  The fields of \<open>EditCategoryScreen\<close> that \<open>action_save\<close> reads, the values of its input
  widgets, and the dict it hands to \<open>dismiss\<close>.
\<close>

record edit_category_screen =
  old_category_name :: string
  available_colors :: "palette_entry list"
  existing_categories :: "string list"
  screen_max_columns :: int
  category_column :: int

record category_form =
  category_input :: string
  background_input :: string
  text_input :: string
  column_input :: string

record save_result =
  old_name :: string
  new_name :: string
  result_colors :: "color_pair option"
  result_column :: int
  result_custom_colors :: "palette_entry list"

definition EditCategoryScreen ::
  "string \<Rightarrow> palette_entry list \<Rightarrow> string list \<Rightarrow> int \<Rightarrow> int \<Rightarrow> edit_category_screen"
where
  "EditCategoryScreen old_category available existing max_cols current_column =
     \<lparr>old_category_name = old_category, available_colors = available,
      existing_categories = existing, screen_max_columns = max 1 max_cols,
      category_column =
        max 1 (min (max 1 max_cols) (if current_column = 0 then 1 else current_column))\<rparr>"

text \<open>\<open>action_save\<close>: \<open>Inl\<close> carries the message given to \<open>show_error\<close>, after which the
  dialog stays open; \<open>Inr\<close> carries the result given to \<open>dismiss\<close>.\<close>

definition action_save :: "edit_category_screen \<Rightarrow> category_form \<Rightarrow> string + save_result" where
  "action_save scr f =
     (let name' = py_strip (category_input f);
          normalized_background = normalize_hex_color (background_input f);
          normalized_text = normalize_hex_color (text_input f)
      in if name' = [] then Inl ''Category name is required.''
         else if (normalized_background \<noteq> None \<and> normalized_text = None) \<or>
                 (normalized_text \<noteq> None \<and> normalized_background = None)
         then Inl ''Provide both background and text colors or leave both blank.''
         else if name' \<noteq> old_category_name scr \<and>
                 name' \<in> set (filter (\<lambda>n. n \<noteq> old_category_name scr) (existing_categories scr))
         then Inl ''Another category already uses that name.''
         else let colors' = (case (normalized_background, normalized_text) of
                               (Some b, Some t) \<Rightarrow> Some \<lparr>background = b, foreground = t\<rparr>
                             | _ \<Rightarrow> None);
                  column_value = (case py_int 10 (py_strip (column_input f)) of
                                    None \<Rightarrow> category_column scr
                                  | Some v \<Rightarrow> v);
                  column_value = max 1 (min (screen_max_columns scr) column_value)
              in Inr \<lparr>old_name = old_category_name scr, new_name = name',
                      result_colors = colors', result_column = column_value,
                      result_custom_colors = available_colors scr\<rparr>)"

definition update_category_details ::
  "app \<Rightarrow> string \<Rightarrow> string \<Rightarrow> color_pair option \<Rightarrow> int option \<Rightarrow> app"
where
  "update_category_details s old new colors' column' =
     (case map_of (menu_data s) old of
        None \<Rightarrow> s
      | Some cd \<Rightarrow>
          let sanitized_colors = sanitize_color_pair colors';
              column_value =
                normalize_column_value s (case column' of Some v \<Rightarrow> v | None \<Rightarrow> get_column cd);
              category_data = cd\<lparr>column := Some column_value, colors := sanitized_colors\<rparr>;
              target_name = (if new \<noteq> [] then new else old);
              target_name =
                (if target_name \<noteq> old \<and> map_of (menu_data s) target_name \<noteq> None then old
                 else target_name);
              updated_data =
                (if target_name \<noteq> old
                 then AList.delete old (menu_data s) @
                        [(target_name,
                          category_data\<lparr>items :=
                            map (\<lambda>it. it\<lparr>category := target_name\<rparr>) (items category_data)\<rparr>)]
                 else AList.update old category_data (menu_data s));
              s1 = update_menu_display (save_menu_data (s\<lparr>menu_data := updated_data\<rparr>))
          in update_highlighting (restore_position_to_category s1 target_name))"

text \<open>
  The category branch of \<open>action_edit_item\<close>: the dialog is opened on the category under
  the cursor, and its result, if it is a save, goes to \<open>update_category_details\<close>.  A
  rejected save leaves the application state as it is.
\<close>

definition open_category_editor :: "app \<Rightarrow> string \<Rightarrow> edit_category_screen" where
  "open_category_editor s category_name =
     EditCategoryScreen category_name (custom_colors s) (map fst (menu_data s)) (column_count s)
       (case map_of (menu_data s) category_name of None \<Rightarrow> 1 | Some cd \<Rightarrow> get_column cd)"

definition handle_category_edit_result :: "app \<Rightarrow> save_result \<Rightarrow> app" where
  "handle_category_edit_result s r =
     update_category_details (s\<lparr>custom_colors := result_custom_colors r\<rparr>)
       (old_name r) (new_name r) (result_colors r) (Some (result_column r))"

definition edit_category :: "app \<Rightarrow> string \<Rightarrow> category_form \<Rightarrow> string option \<times> app" where
  "edit_category s category_name f =
     (case action_save (open_category_editor s category_name) f of
        Inl message \<Rightarrow> (Some message, s)
      | Inr r \<Rightarrow> (None, handle_category_edit_result s r))"

text \<open>A dialog input for the examples: the name of another category, with blanks around it.\<close>

definition clash_form :: category_form where
  "clash_form =
     \<lparr>category_input = '' System Tools '', background_input = '''', text_input = '''',
      column_input = ''2''\<rparr>"

section \<open>Loading the configuration file\<close>

text \<open>
  \<open>load_menu_data\<close> keeps what \<open>json.load\<close> returns without checking its shape, so at
  this point the tree is a JSON value.  Numbers are integers here (no floats); an object
  is an association list in file order, with distinct keys.  The loader runs from
  \<open>__init__\<close>, before the display exists, so the watcher of \<open>menu_data\<close> returns at
  its first test and assignments to \<open>menu_data\<close> are plain assignments.
\<close>

datatype json =
    JNull
  | JBool bool
  | JNum int
  | JStr string
  | JArr "json list"
  | JObj "(string \<times> json) list"

datatype py_error = AttributeError | TypeError | KeyError | JSONDecodeError

text \<open>The Python operations the loader applies to such values, with the exceptions they raise.\<close>

definition truthy :: "json \<Rightarrow> bool" where
  "truthy v =
     (case v of JNull \<Rightarrow> False | JBool b \<Rightarrow> b | JNum n \<Rightarrow> n \<noteq> 0 | JStr s \<Rightarrow> s \<noteq> []
      | JArr xs \<Rightarrow> xs \<noteq> [] | JObj kvs \<Rightarrow> kvs \<noteq> [])"

definition py_get :: "json \<Rightarrow> string \<Rightarrow> json \<Rightarrow> py_error + json" where
  \<comment> \<open>\<open>v.get(key, default)\<close>\<close>
  "py_get v key dflt =
     (case v of
        JObj kvs \<Rightarrow> Inr (case map_of kvs key of Some x \<Rightarrow> x | None \<Rightarrow> dflt)
      | _ \<Rightarrow> Inl AttributeError)"

definition is_substring :: "string \<Rightarrow> string \<Rightarrow> bool" where
  "is_substring k s = list_ex (\<lambda>i. take (length k) (drop i s) = k) [0..<Suc (length s)]"

definition py_contains :: "string \<Rightarrow> json \<Rightarrow> py_error + bool" where
  \<comment> \<open>\<open>key in v\<close>\<close>
  "py_contains key v =
     (case v of
        JObj kvs \<Rightarrow> Inr (map_of kvs key \<noteq> None)
      | JArr xs \<Rightarrow> Inr (JStr key \<in> set xs)
      | JStr s \<Rightarrow> Inr (is_substring key s)
      | _ \<Rightarrow> Inl TypeError)"

definition py_subscript :: "json \<Rightarrow> string \<Rightarrow> py_error + json" where
  \<comment> \<open>\<open>v[key]\<close>\<close>
  "py_subscript v key =
     (case v of
        JObj kvs \<Rightarrow> (case map_of kvs key of Some x \<Rightarrow> Inr x | None \<Rightarrow> Inl KeyError)
      | _ \<Rightarrow> Inl TypeError)"

definition py_iterate :: "json \<Rightarrow> py_error + json list" where
  \<comment> \<open>the values a \<open>for\<close> loop over \<open>v\<close> sees\<close>
  "py_iterate v =
     (case v of
        JArr xs \<Rightarrow> Inr xs
      | JObj kvs \<Rightarrow> Inr (map (\<lambda>kv. JStr (fst kv)) kvs)
      | JStr s \<Rightarrow> Inr (map (\<lambda>c. JStr [c]) s)
      | _ \<Rightarrow> Inl TypeError)"

definition int_or_one :: "json \<Rightarrow> int" where
  \<comment> \<open>\<open>int(value)\<close>, with 1 where it raises \<open>TypeError\<close> or \<open>ValueError\<close>\<close>
  "int_or_one v =
     (case v of
        JNum n \<Rightarrow> n
      | JBool b \<Rightarrow> (if b then 1 else 0)
      | JStr s \<Rightarrow> (case py_int 10 s of Some n \<Rightarrow> n | None \<Rightarrow> 1)
      | _ \<Rightarrow> 1)"

definition differs_from_int :: "json \<Rightarrow> int \<Rightarrow> bool" where
  \<comment> \<open>\<open>v != n\<close> for an integer \<open>n\<close>\<close>
  "differs_from_int v n =
     (case v of JNum m \<Rightarrow> m \<noteq> n | JBool b \<Rightarrow> (if b then 1 else 0) \<noteq> n | _ \<Rightarrow> True)"

definition normalize_hex_value :: "json \<Rightarrow> string option" where
  \<comment> \<open>\<open>normalize_hex_color\<close> on a value that need not be a string\<close>
  "normalize_hex_value v = (case v of JStr s \<Rightarrow> normalize_hex_color s | _ \<Rightarrow> None)"

definition sanitize_color_entry :: "json \<Rightarrow> color_pair option" where
  \<comment> \<open>\<open>sanitize_color_pair\<close> on a value that need not be a dict\<close>
  "sanitize_color_entry v =
     (case v of
        JObj kvs \<Rightarrow>
          if kvs = [] then None
          else (case (normalize_hex_value (case map_of kvs ''background'' of Some x \<Rightarrow> x | None \<Rightarrow> JNull),
                      normalize_hex_value (case map_of kvs ''text'' of Some x \<Rightarrow> x | None \<Rightarrow> JNull)) of
                  (Some b, Some t) \<Rightarrow> Some \<lparr>background = b, foreground = t\<rparr>
                | _ \<Rightarrow> None)
      | _ \<Rightarrow> None)"

text \<open>
  The part of the application state the loader touches, the legacy file \<open>./menus.json\<close>
  and the file \<open>~/.local/menu-maker/menus.json\<close>.  A file holds either text that
  \<open>json.load\<close> rejects or a document.  Writes are taken to succeed.
\<close>

datatype file_content = Unreadable | Document json

record loader =
  boot_menu_data :: json
  boot_custom_colors :: "json list"
  boot_app_title :: json
  boot_column_count :: int
  boot_max_columns :: int
  old_config :: "file_content option"
  config :: "file_content option"
  writes :: nat

definition json_of_color :: "palette_entry \<Rightarrow> json" where
  "json_of_color c =
     JObj [(''name'', JStr (name c)), (''background'', JStr (background c)),
           (''text'', JStr (foreground c))]"

definition default_data :: json where
  "default_data =
     JObj [(''System Tools'',
        JObj [(''expanded'', JBool True), (''column'', JNum 1),
              (''items'',
                JArr [JObj [(''label'', JStr ''System Monitor''), (''cmd'', JStr ''htop''),
                            (''info'', JStr ''Interactive process viewer''),
                            (''category'', JStr ''System Tools'')]])])]"

definition saved_document :: "loader \<Rightarrow> json" where
  \<comment> \<open>the dict \<open>save_menu_data\<close> dumps\<close>
  "saved_document s =
     JObj [(''categories'', boot_menu_data s),
           (''app_settings'',
              JObj [(''title'', boot_app_title s), (''columns'', JNum (boot_column_count s))]),
           (''custom_colors'', JArr (boot_custom_colors s))]"

definition boot_save_menu_data :: "loader \<Rightarrow> loader" where
  "boot_save_menu_data s = s\<lparr>config := Some (Document (saved_document s)), writes := writes s + 1\<rparr>"

definition create_default_menu :: "loader \<Rightarrow> loader" where
  "create_default_menu s =
     boot_save_menu_data
       (s\<lparr>boot_column_count := 1, boot_menu_data := default_data,
          boot_custom_colors := map json_of_color DEFAULT_COLOR_PAIRS\<rparr>)"

text \<open>
  \<open>ensure_category_columns\<close> on the loaded value.  The loop stops at a category that is
  not a dict; what it has written before stays written.
\<close>

fun ensure_loop :: "int \<Rightarrow> (string \<times> json) list \<Rightarrow> py_error option \<times> bool \<times> (string \<times> json) list" where
  "ensure_loop n [] = (None, False, [])"
| "ensure_loop n ((k, v) # rest) =
     (case v of
        JObj flds \<Rightarrow>
          let current_column = (case map_of flds ''column'' of Some x \<Rightarrow> x | None \<Rightarrow> JNum 1);
              normalized = max 1 (min n (int_or_one current_column));
              changed = differs_from_int current_column normalized;
              v' = (if changed then JObj (AList.update ''column'' (JNum normalized) flds) else v);
              (err, changed', rest') = ensure_loop n rest
          in (err, changed \<or> changed', (k, v') # rest')
      | _ \<Rightarrow> (Some AttributeError, False, (k, v) # rest))"

definition boot_ensure_category_columns :: "loader \<Rightarrow> py_error option \<times> bool \<times> loader" where
  "boot_ensure_category_columns s =
     (case boot_menu_data s of
        JObj cats \<Rightarrow>
          (case ensure_loop (boot_column_count s) cats of
             (err, changed, cats') \<Rightarrow> (err, changed, s\<lparr>boot_menu_data := JObj cats'\<rparr>))
      | _ \<Rightarrow> (Some AttributeError, False, s))"

fun load_colors :: "nat \<Rightarrow> json list \<Rightarrow> json list" where
  "load_colors idx [] = []"
| "load_colors idx (entry # rest) =
     (case sanitize_color_entry entry of
        None \<Rightarrow> load_colors (idx + 1) rest
      | Some pair \<Rightarrow>
          JObj [(''name'',
                  (let n = (case entry of JObj kvs \<Rightarrow> (case map_of kvs ''name'' of Some x \<Rightarrow> x | None \<Rightarrow> JNull)
                            | _ \<Rightarrow> JNull)
                   in if truthy n then n else JStr (''Color '' @ str_nat idx))),
                (''background'', JStr (background pair)), (''text'', JStr (foreground pair))]
            # load_colors (idx + 1) rest)"

text \<open>
  The body of the \<open>try\<close> once the file has been parsed to \<open>data\<close>.  The result is the
  exception raised, if any, and the state reached.  \<open>self.menu_data\<close> is the very object
  stored under \<open>categories\<close>, so the document written back after the \<open>theme\<close> clean-up
  holds the columns as \<open>set_column_count\<close> has left them.
\<close>

definition load_settings :: "loader \<Rightarrow> (string \<times> json) list \<Rightarrow> py_error option \<times> loader" where
  "load_settings s data =
     (case map_of data ''app_settings'' of
        None \<Rightarrow> (None, s)
      | Some settings \<Rightarrow>
          (case py_contains ''title'' settings of
             Inl e \<Rightarrow> (Some e, s)
           | Inr has_title \<Rightarrow>
               (case (if has_title then py_subscript settings ''title'' else Inr (boot_app_title s)) of
                  Inl e \<Rightarrow> (Some e, s)
                | Inr title' \<Rightarrow>
                    let s1 = s\<lparr>boot_app_title := title'\<rparr> in
                    (case py_get settings ''columns'' (JNum 1) of
                       Inl e \<Rightarrow> (Some e, s1)
                     | Inr count \<Rightarrow>
                         let s2 = s1\<lparr>boot_column_count :=
                                       max 1 (min (boot_max_columns s1) (int_or_one count))\<rparr>
                         in (case boot_ensure_category_columns s2 of
                               (Some e, _, s3) \<Rightarrow> (Some e, s3)
                             | (None, _, s3) \<Rightarrow>
                                 (case settings of
                                    JObj flds \<Rightarrow>
                                      if map_of flds ''theme'' \<noteq> None
                                      then let data1 =
                                                 (if map_of data ''categories'' \<noteq> None
                                                  then AList.update ''categories'' (boot_menu_data s3) data
                                                  else data);
                                               data2 = AList.update ''app_settings''
                                                         (JObj (AList.delete ''theme'' flds)) data1
                                           in (None, s3\<lparr>config := Some (Document (JObj data2)),
                                                         writes := writes s3 + 1\<rparr>)
                                      else (None, s3)
                                  | _ \<Rightarrow> (Some TypeError, s3)))))))"

definition load_document :: "loader \<Rightarrow> json \<Rightarrow> py_error option \<times> loader" where
  "load_document s data =
     (case py_get data ''categories'' (JObj []) of
        Inl e \<Rightarrow> (Some e, s)
      | Inr cats \<Rightarrow>
          let s1 = s\<lparr>boot_menu_data := cats\<rparr> in
          (case py_get data ''custom_colors'' (JArr []) of
             Inl e \<Rightarrow> (Some e, s1)
           | Inr colors_value \<Rightarrow>
               (case py_iterate colors_value of
                  Inl e \<Rightarrow> (Some e, s1)
                | Inr entries \<Rightarrow>
                    let loaded_colors = load_colors 1 entries;
                        s2 = (if loaded_colors \<noteq> [] then s1\<lparr>boot_custom_colors := loaded_colors\<rparr>
                              else s1)
                    in (case data of
                          JObj flds \<Rightarrow> load_settings s2 flds
                        | _ \<Rightarrow> (Some TypeError, s2)))))"

definition load_body :: "loader \<Rightarrow> py_error option \<times> loader" where
  "load_body s =
     (let s0 = (if old_config s \<noteq> None \<and> config s = None
                then s\<lparr>config := old_config s, old_config := None\<rparr> else s);
          (err, s1) =
            (case config s0 of
               None \<Rightarrow> (None, create_default_menu s0)
             | Some Unreadable \<Rightarrow> (Some JSONDecodeError, s0)
             | Some (Document data) \<Rightarrow> load_document s0 data)
      in case err of
           Some e \<Rightarrow> (Some e, s1)
         | None \<Rightarrow>
             (case boot_ensure_category_columns s1 of
                (Some e, _, s2) \<Rightarrow> (Some e, s2)
              | (None, changed, s2) \<Rightarrow> (None, if changed then boot_save_menu_data s2 else s2)))"

definition load_menu_data :: "loader \<Rightarrow> loader" where
  "load_menu_data s =
     (case load_body s of
        (None, s') \<Rightarrow> s'
      | (Some e, s') \<Rightarrow> create_default_menu s')"

text \<open>
  Vocabulary for the statements about loading: the least structure the later code relies
  on (the categories are an object of objects, each with a list under \<open>items\<close>), and the
  file the loader reads after the migration of the legacy file.
\<close>

definition structurally_valid :: "json \<Rightarrow> bool" where
  "structurally_valid data =
     (case data of
        JObj flds \<Rightarrow>
          (case map_of flds ''categories'' of
             Some (JObj cats) \<Rightarrow>
               list_all (\<lambda>kv. case snd kv of
                                 JObj c \<Rightarrow> (case map_of c ''items'' of Some (JArr _) \<Rightarrow> True | _ \<Rightarrow> False)
                               | _ \<Rightarrow> False) cats
           | _ \<Rightarrow> False)
      | _ \<Rightarrow> False)"

definition is_obj :: "json \<Rightarrow> bool" where
  "is_obj v = (case v of JObj _ \<Rightarrow> True | _ \<Rightarrow> False)"

definition bad_tree :: "json \<Rightarrow> bool" where
  \<comment> \<open>not an object, or an object with a category that is not an object\<close>
  "bad_tree v = (case v of JObj cats \<Rightarrow> list_ex (\<lambda>kv. \<not> is_obj (snd kv)) cats | _ \<Rightarrow> True)"

definition shape_raises :: "json \<Rightarrow> bool" where
  \<comment> \<open>the document is not an object, or what it holds under \<open>categories\<close> is a bad tree\<close>
  "shape_raises data =
     (case data of
        JObj flds \<Rightarrow> (case map_of flds ''categories'' of None \<Rightarrow> False | Some v \<Rightarrow> bad_tree v)
      | _ \<Rightarrow> True)"

definition file_read :: "loader \<Rightarrow> file_content option" where
  "file_read s = (if config s = None then old_config s else config s)"

definition fell_back :: "loader \<Rightarrow> bool" where
  \<comment> \<open>the default tree is resident and is what the file now holds\<close>
  "fell_back s' =
     (boot_menu_data s' = default_data \<and> boot_column_count s' = 1 \<and>
      config s' =
        Some (Document
          (JObj [(''categories'', default_data),
                 (''app_settings'', JObj [(''title'', boot_app_title s'), (''columns'', JNum 1)]),
                 (''custom_colors'', JArr (map json_of_color DEFAULT_COLOR_PAIRS))])))"

definition fresh_loader :: "file_content option \<Rightarrow> file_content option \<Rightarrow> loader" where
  \<comment> \<open>the state in which \<open>__init__\<close> calls \<open>load_menu_data\<close>; the dash of the title,
      \<open>U+2014\<close> in the source, is a hyphen here\<close>
  "fresh_loader legacy current =
     \<lparr>boot_menu_data = JObj [], boot_custom_colors = map json_of_color DEFAULT_COLOR_PAIRS,
      boot_app_title = JStr ''Menu Maker - Enhanced Categorized Menu System'',
      boot_column_count = 1, boot_max_columns = 6,
      old_config = legacy, config = current, writes = 0\<rparr>"

definition broken_document :: json where
  "broken_document =
     JObj [(''categories'',
             JObj [(''Broken'',
                JObj [(''expanded'', JBool True), (''column'', JNum 1), (''items'', JNum 7)])]),
           (''app_settings'', JObj [(''title'', JStr ''T''), (''columns'', JNum 1)])]"

definition flat_document :: json where
  \<comment> \<open>a category that is a list of items instead of an object\<close>
  "flat_document =
     JObj [(''categories'',
             JObj [(''Tools'',
                JArr [JObj [(''label'', JStr ''Editor''), (''cmd'', JStr ''vim'')]])])]"

section \<open>Properties of the color functions\<close>


lemma py_lower_char_idem: "py_lower_char (py_lower_char c) = py_lower_char c"
  by (auto simp add: py_lower_char_def Let_def)

lemma py_isspace_lower: "py_isspace (py_lower_char c) = py_isspace c"
  by (auto simp add: py_lower_char_def py_isspace_def Let_def)

lemma dropWhile_rev_not_last:
  "xs \<noteq> [] \<Longrightarrow> \<not> P (last xs) \<Longrightarrow> rev (dropWhile P (rev xs)) = xs"
  by (cases xs rule: rev_cases) auto

lemma dropWhile_not_hd: "xs \<noteq> [] \<Longrightarrow> \<not> P (hd xs) \<Longrightarrow> dropWhile P xs = xs"
  by (cases xs) auto

lemma py_strip_fixed:
  "s \<noteq> [] \<Longrightarrow> \<not> py_isspace (hd s) \<Longrightarrow> \<not> py_isspace (last s) \<Longrightarrow> py_strip s = s"
  unfolding py_strip_def
  by (simp add: dropWhile_not_hd dropWhile_rev_not_last)

lemma py_strip_last: "py_strip s \<noteq> [] \<Longrightarrow> \<not> py_isspace (last (py_strip s))"
proof -
  assume a: "py_strip s \<noteq> []"
  then have "dropWhile py_isspace (rev (dropWhile py_isspace s)) \<noteq> []"
    unfolding py_strip_def by simp
  then have "\<not> py_isspace (hd (dropWhile py_isspace (rev (dropWhile py_isspace s))))"
    by (rule hd_dropWhile)
  then show ?thesis using a unfolding py_strip_def by (simp add: last_rev)
qed











lemma py_lower_char_hash_eq: "py_lower_char (CHR ''#'') = CHR ''#''"
  by (simp add: py_lower_char_def)

lemma candidate_eq:
  "(if startswith c ''#'' then c else CHR ''#'' # c) = CHR ''#'' # after_marker c"
  by (cases c) (auto simp add: startswith_def after_marker_def)

lemma normalize_hex_color_unfold:
  "normalize_hex_color s =
     (if length (color_body s) = 6 \<and> py_int 16 (color_body s) \<noteq> None
      then Some (CHR ''#'' # color_body s) else None)"
proof (cases "py_lower (py_strip s) = []")
  case True
  then show ?thesis
    by (simp add: normalize_hex_color_def color_body_def after_marker_def startswith_def)
next
  case False
  then have "s \<noteq> []" by (auto simp add: py_lower_def py_strip_def)
  then show ?thesis
    using False
    by (auto simp add: normalize_hex_color_def Let_def candidate_eq color_body_def
        split: option.splits)
qed

lemma color_body_lower: "c \<in> set (color_body s) \<Longrightarrow> py_lower_char c = c"
proof -
  assume "c \<in> set (color_body s)"
  then have "c \<in> set (py_lower (py_strip s))"
    by (auto simp add: color_body_def after_marker_def dest: in_set_dropD split: if_splits)
  then show ?thesis by (auto simp add: py_lower_def py_lower_char_idem)
qed


lemma py_lower_result: "py_lower (CHR ''#'' # color_body s) = CHR ''#'' # color_body s"
  using color_body_lower [of _ s]
  by (simp add: py_lower_def py_lower_char_hash_eq map_idI)






text \<open>
  \<open>int(text, 16)\<close> reads more than hex digits: a sign, a \<open>0x\<close> prefix and single
  underscores pass the test, and the value returned is then not of the form
  \<open>#rrggbb\<close>.
\<close>

lemma normalize_hex_color_lenient_literals:
  "normalize_hex_color ''+12345'' = Some ''#+12345'' \<and>
   normalize_hex_color ''0x1234'' = Some ''#0x1234'' \<and>
   normalize_hex_color ''1_2_3a'' = Some ''#1_2_3a'' \<and>
   \<not> is_rrggbb ''#+12345''"
proof -
  have "normalize_hex_color ''+12345'' = Some ''#+12345''" by code_simp
  moreover have "normalize_hex_color ''0x1234'' = Some ''#0x1234''" by code_simp
  moreover have "normalize_hex_color ''1_2_3a'' = Some ''#1_2_3a''" by code_simp
  moreover have "\<not> is_rrggbb ''#+12345''" by (simp add: is_rrggbb_def lower_hex_digit_def)
  ultimately show ?thesis by simp
qed

text \<open>
  Claim C9: \<open>normalize_hex_color\<close> is idempotent on what it accepts: if it returns
  \<open>v\<close> for an input, it returns \<open>v\<close> for \<open>v\<close>.
\<close>

theorem normalize_hex_color_idempotent:
  assumes "normalize_hex_color s = Some v"
  shows "normalize_hex_color v = Some v"
proof -
  define b where "b = color_body s"
  have v: "v = CHR ''#'' # b" and len: "length b = 6" and int: "py_int 16 b \<noteq> None"
    using assms unfolding b_def by (auto simp add: normalize_hex_color_unfold split: if_splits)
  have bne: "b \<noteq> []" using len by auto
  have sub: "set b \<subseteq> set (py_lower (py_strip s))"
    unfolding b_def color_body_def after_marker_def by (auto dest: in_set_dropD)
  have stripped: "py_lower (py_strip s) \<noteq> []" using sub bne by auto
  then have sne: "py_strip s \<noteq> []" by (auto simp add: py_lower_def)
  have "last b = last (py_lower (py_strip s))"
    using bne unfolding b_def color_body_def after_marker_def
    by (auto simp add: last_drop Suc_le_eq split: if_splits)
  also have "\<dots> = py_lower_char (last (py_strip s))"
    using sne by (simp add: py_lower_def last_map)
  finally have lastb: "\<not> py_isspace (last b)"
    using py_strip_last [OF sne] by (simp add: py_isspace_lower)
  have "last v = last b" unfolding v using bne by (rule last_ConsR)
  then have lastv: "\<not> py_isspace (last v)" using lastb by simp
  have "\<not> py_isspace (CHR ''#'')" by (simp add: py_isspace_def)
  then have hdv: "\<not> py_isspace (hd v)" unfolding v by simp
  have "v \<noteq> []" by (simp only: v) simp
  then have strip: "py_strip v = v" using hdv lastv by (rule py_strip_fixed)
  have lower: "py_lower v = v" unfolding v b_def by (rule py_lower_result)
  have "after_marker (CHR ''#'' # b) = b" by (simp add: after_marker_def startswith_def)
  then have cb: "color_body v = b" unfolding color_body_def strip lower unfolding v .
  have "normalize_hex_color v = Some (CHR ''#'' # color_body v)"
    using len int by (simp add: normalize_hex_color_unfold [of v] cb)
  then show ?thesis using cb unfolding v by simp
qed

text \<open>C9 at the input \<open>"1a2B3C"\<close>.\<close>

theorem normalize_hex_color_idempotent_witness:
  "normalize_hex_color ''1a2B3C'' = Some ''#1a2b3c'' \<and>
   normalize_hex_color ''#1a2b3c'' = Some ''#1a2b3c''"
proof -
  have h: "normalize_hex_color ''1a2B3C'' = Some ''#1a2b3c''" by code_simp
  show ?thesis by (intro conjI h normalize_hex_color_idempotent [OF h])
qed

section \<open>Properties of the palette\<close>

lemma add_defaults_short:
  "length palette < 4 \<Longrightarrow>
   add_defaults ds palette seen = palette @ take (4 - length palette) (unseen_defaults ds seen)"
proof (induction ds arbitrary: palette seen)
  case Nil
  then show ?case by simp
next
  case (Cons d ds)
  show ?case
  proof (cases "has_pair d \<and> pair_key d \<notin> seen")
    case False
    then show ?thesis using Cons by (auto simp add: Let_def)
  next
    case True
    show ?thesis
    proof (cases "length palette = 3")
      case True
      then show ?thesis using \<open>has_pair d \<and> pair_key d \<notin> seen\<close> by (simp add: Let_def)
    next
      case False
      then have lt: "length (palette @ [d]) < 4" using Cons.prems by simp
      have "4 - length palette = Suc (4 - length (palette @ [d]))" using lt by simp
      then show ?thesis
        using True lt Cons.IH [OF lt, of "insert (pair_key d) seen"]
        by (simp add: Let_def)
    qed
  qed
qed

lemma add_defaults_full:
  "4 \<le> length palette \<Longrightarrow> has_pair d \<Longrightarrow>
   add_defaults (d # ds) palette seen = palette @ (if pair_key d \<in> seen then [] else [d])"
  by (simp add: Let_def)

lemma add_fillers_eq: "add_fillers p = p @ map filler_entry [length p ..< 4]"
proof (induction p rule: add_fillers.induct)
  case (1 palette)
  show ?case
  proof (cases "length palette < 4")
    case True
    then have "[length palette ..< 4] = length palette # [Suc (length palette) ..< 4]"
      by (simp add: upt_conv_Cons)
    then show ?thesis using True 1 by (subst add_fillers.simps) simp
  next
    case False
    then show ?thesis by (subst add_fillers.simps) simp
  qed
qed

lemma unseen_defaults_filter:
  "list_all has_pair ds \<Longrightarrow> distinct (map pair_key ds) \<Longrightarrow>
   unseen_defaults ds seen = filter (\<lambda>d. pair_key d \<notin> seen) ds"
proof (induction ds arbitrary: seen)
  case Nil
  then show ?case by simp
next
  case (Cons d ds)
  have "filter (\<lambda>e. pair_key e \<notin> insert (pair_key d) seen) ds = filter (\<lambda>e. pair_key e \<notin> seen) ds"
  proof (intro filter_cong refl)
    fix e assume e: "e \<in> set ds"
    have "pair_key d \<notin> pair_key ` set ds" using Cons.prems(2) by simp
    then have "pair_key e \<noteq> pair_key d" using e by (metis imageI)
    then show "(pair_key e \<notin> insert (pair_key d) seen) = (pair_key e \<notin> seen)" by simp
  qed
  then show ?case using Cons by simp
qed

lemma length_filter_notin:
  assumes "finite S" "distinct (map f xs)"
  shows "length xs - card S \<le> length (filter (\<lambda>x. f x \<notin> S) xs)"
proof -
  have d: "distinct (map f (filter (\<lambda>x. f x \<in> S) xs))"
    using assms(2) by (simp add: distinct_map_filter)
  have "length (filter (\<lambda>x. f x \<in> S) xs) = card (set (map f (filter (\<lambda>x. f x \<in> S) xs)))"
    using distinct_card [OF d] by simp
  also have "\<dots> \<le> card S" using assms(1) by (intro card_mono) auto
  finally have "length (filter (\<lambda>x. f x \<in> S) xs) \<le> card S" .
  moreover have "length xs = length (filter (\<lambda>x. f x \<in> S) xs) + length (filter (\<lambda>x. f x \<notin> S) xs)"
    using sum_length_filter_compl [of "\<lambda>x. f x \<in> S" xs] by simp
  ultimately show ?thesis by simp
qed

lemma card_seen_pairs: "card (seen_pairs custom) \<le> length custom"
proof -
  have "card (seen_pairs custom) \<le> length (map pair_key (filter has_pair custom))"
    unfolding seen_pairs_def by (rule card_length)
  also have "\<dots> \<le> length custom" by simp
  finally show ?thesis .
qed

lemma default_pair_keys:
  "map pair_key DEFAULT_COLOR_PAIRS =
     [(''#034e68'', ''#caf0f8''), (''#6f1d1b'', ''#ffe5d9''), (''#240046'', ''#f8f9fa''),
      (''#283618'', ''#fefae0''), (''#2b2d42'', ''#edf2f4'')]"
  by code_simp

lemma defaults_distinct: "distinct (map pair_key DEFAULT_COLOR_PAIRS)"
  unfolding default_pair_keys by simp

lemma defaults_have_pairs: "list_all has_pair DEFAULT_COLOR_PAIRS"
  by (simp add: DEFAULT_COLOR_PAIRS_def has_pair_def)

lemma defaults_length: "length DEFAULT_COLOR_PAIRS = 5"
  by (simp add: DEFAULT_COLOR_PAIRS_def)

text \<open>
  Claim C7, as the code has it.  The palette starts with the custom entries, unchanged
  and in order.
  \<^item> With fewer than four custom entries, it goes on with built-in defaults in their order,
    leaving out those whose pair already appears (compared in lower case), and takes only
    as many as are needed to reach four entries; the result has exactly four entries.
  \<^item> With four or more custom entries, only the first built-in default is looked at: it is
    appended when its pair does not appear yet.
  \<^item> The result has at least four entries.
  \<^item> The filler loop appends entries named \<open>Color k\<close> with the static pair while the
    palette is shorter than four; after the five built-in defaults it finds nothing to do.
\<close>

theorem build_palette_entries_order:
  "(length custom < 4 \<longrightarrow>
      build_palette_entries custom =
        custom @ take (4 - length custom) (unseen_defaults DEFAULT_COLOR_PAIRS (seen_pairs custom)) \<and>
      length (build_palette_entries custom) = 4) \<and>
   (4 \<le> length custom \<longrightarrow>
      build_palette_entries custom =
        custom @ (if pair_key (hd DEFAULT_COLOR_PAIRS) \<in> seen_pairs custom then []
                  else [hd DEFAULT_COLOR_PAIRS])) \<and>
   4 \<le> length (build_palette_entries custom) \<and>
   (\<forall>p. add_fillers p = p @ map filler_entry [length p ..< 4])"
proof -
  let ?U = "unseen_defaults DEFAULT_COLOR_PAIRS (seen_pairs custom)"
  have fin: "finite (seen_pairs custom)" by (simp add: seen_pairs_def)
  have "length DEFAULT_COLOR_PAIRS - card (seen_pairs custom) \<le> length ?U"
    unfolding unseen_defaults_filter [OF defaults_have_pairs defaults_distinct]
    using fin defaults_distinct by (rule length_filter_notin)
  then have enough: "4 - length custom \<le> length ?U"
    using card_seen_pairs [of custom] by (simp add: defaults_length)
  have short: "build_palette_entries custom = custom @ take (4 - length custom) ?U \<and>
      length (build_palette_entries custom) = 4" if lt: "length custom < 4"
  proof -
    have len: "length (custom @ take (4 - length custom) ?U) = 4"
      using lt enough by simp
    have "build_palette_entries custom = add_fillers (custom @ take (4 - length custom) ?U)"
      by (simp add: build_palette_entries_def add_defaults_short [OF lt])
    also have "\<dots> = custom @ take (4 - length custom) ?U"
      by (subst add_fillers_eq) (simp only: len upt_rec [of 4 4], simp)
    finally show ?thesis using len by simp
  qed
  have hp: "has_pair (hd DEFAULT_COLOR_PAIRS)" by (simp add: DEFAULT_COLOR_PAIRS_def has_pair_def)
  have full: "build_palette_entries custom =
        custom @ (if pair_key (hd DEFAULT_COLOR_PAIRS) \<in> seen_pairs custom then []
                  else [hd DEFAULT_COLOR_PAIRS])" if ge: "4 \<le> length custom"
  proof -
    have d: "DEFAULT_COLOR_PAIRS = hd DEFAULT_COLOR_PAIRS # tl DEFAULT_COLOR_PAIRS"
      by (simp add: DEFAULT_COLOR_PAIRS_def)
    have "add_defaults DEFAULT_COLOR_PAIRS custom (seen_pairs custom) =
        custom @ (if pair_key (hd DEFAULT_COLOR_PAIRS) \<in> seen_pairs custom then []
                  else [hd DEFAULT_COLOR_PAIRS])"
      by (subst d) (rule add_defaults_full [OF ge hp])
    moreover have "add_fillers q = q" if "4 \<le> length q" for q
      using that by (subst add_fillers.simps) simp
    ultimately show ?thesis using ge by (simp add: build_palette_entries_def)
  qed
  have least: "4 \<le> length (build_palette_entries custom)"
  proof (cases "length custom < 4")
    case True
    then have "length (build_palette_entries custom) = 4" using short by (rule_tac conjunct2)
    then show ?thesis by (simp only: order_refl)
  next
    case False
    then have g: "4 \<le> length custom" by simp
    show ?thesis unfolding full [OF g] using g by simp
  qed
  show ?thesis using short full least add_fillers_eq by blast
qed

text \<open>C7 at the empty custom list and at a list of four custom entries.\<close>

theorem build_palette_entries_order_witness:
  "length ([] :: palette_entry list) < 4 \<and>
   build_palette_entries [] = take 4 DEFAULT_COLOR_PAIRS \<and>
   4 \<le> length (replicate 4 \<lparr>background = ''#000000'', foreground = ''#ffffff'', name = ''Mine''\<rparr>) \<and>
   build_palette_entries
     (replicate 4 \<lparr>background = ''#000000'', foreground = ''#ffffff'', name = ''Mine''\<rparr>) =
     replicate 4 \<lparr>background = ''#000000'', foreground = ''#ffffff'', name = ''Mine''\<rparr> @
     [hd DEFAULT_COLOR_PAIRS]"
proof -
  let ?c = "replicate 4 \<lparr>background = ''#000000'', foreground = ''#ffffff'', name = ''Mine''\<rparr>"
  have h1: "length ([] :: palette_entry list) < 4" by simp
  have u: "take (4 - length ([] :: palette_entry list))
             (unseen_defaults DEFAULT_COLOR_PAIRS (seen_pairs [])) = take 4 DEFAULT_COLOR_PAIRS"
    by code_simp
  have r1: "build_palette_entries [] = take 4 DEFAULT_COLOR_PAIRS"
    using build_palette_entries_order [of "[]", THEN conjunct1, THEN mp, OF h1, THEN conjunct1]
    unfolding u by simp
  have h2: "4 \<le> length ?c" by simp
  have k: "pair_key (hd DEFAULT_COLOR_PAIRS) \<notin> seen_pairs ?c" by code_simp
  have r2: "build_palette_entries ?c = ?c @ [hd DEFAULT_COLOR_PAIRS]"
    using build_palette_entries_order [of ?c, THEN conjunct2, THEN conjunct1, THEN mp, OF h2] k
    by (simp only: if_False)
  show ?thesis by (intro conjI h1 r1 h2 r2)
qed

text \<open>
  C7 as the specification words it fails: with no custom colors, \<open>Slate Shine\<close> is a
  built-in default whose pair does not appear, and it is not in the palette.
\<close>

theorem build_palette_entries_counterexample:
  "\<lparr>background = ''#2b2d42'', foreground = ''#edf2f4'', name = ''Slate Shine''\<rparr>
     \<in> set DEFAULT_COLOR_PAIRS \<and>
   pair_key \<lparr>background = ''#2b2d42'', foreground = ''#edf2f4'', name = ''Slate Shine''\<rparr>
     \<notin> seen_pairs [] \<and>
   \<lparr>background = ''#2b2d42'', foreground = ''#edf2f4'', name = ''Slate Shine''\<rparr>
     \<notin> set (build_palette_entries [])"
proof -
  have b: "build_palette_entries [] = take 4 DEFAULT_COLOR_PAIRS" by code_simp
  have 1: "\<lparr>background = ''#2b2d42'', foreground = ''#edf2f4'', name = ''Slate Shine''\<rparr>
     \<in> set DEFAULT_COLOR_PAIRS" by (simp add: DEFAULT_COLOR_PAIRS_def)
  have 2: "pair_key \<lparr>background = ''#2b2d42'', foreground = ''#edf2f4'', name = ''Slate Shine''\<rparr>
     \<notin> seen_pairs []" by (simp add: seen_pairs_def)
  have 3: "\<lparr>background = ''#2b2d42'', foreground = ''#edf2f4'', name = ''Slate Shine''\<rparr>
     \<notin> set (build_palette_entries [])"
    unfolding b by (simp add: DEFAULT_COLOR_PAIRS_def)
  show ?thesis by (intro conjI 1 2 3)
qed

section \<open>Properties of the cursor\<close>

lemma action_cursor_down_step:
  assumes "display_items s \<noteq> []"
  shows "action_cursor_down s =
           s\<lparr>current_index := (current_index s + 1) mod int (length (display_items s))\<rparr>"
proof -
  let ?n = "int (length (display_items s))"
  let ?j = "(current_index s + 1) mod ?n"
  have pos: "0 < ?n" using assms by simp
  have range: "0 \<le> ?j" "?j < ?n" using pos by simp_all
  have "update_highlighting (s\<lparr>current_index := ?j\<rparr>) = s\<lparr>current_index := ?j\<rparr>"
    using assms range by (simp add: update_highlighting_def min_def max_def)
  then show ?thesis using assms by (simp add: action_cursor_down_def Let_def)
qed

lemma action_cursor_down_iterate:
  assumes "display_items s \<noteq> []"
  shows "(action_cursor_down ^^ Suc k) s =
           s\<lparr>current_index := (current_index s + 1 + int k) mod int (length (display_items s))\<rparr>"
proof (induction k)
  case 0
  then show ?case using action_cursor_down_step [OF assms] by simp
next
  case (Suc k)
  let ?n = "int (length (display_items s))"
  let ?t = "s\<lparr>current_index := (current_index s + 1 + int k) mod ?n\<rparr>"
  have ne: "display_items ?t \<noteq> []" using assms by simp
  have "(action_cursor_down ^^ Suc (Suc k)) s = action_cursor_down ?t"
    using Suc by simp
  also have "\<dots> = ?t\<lparr>current_index := (current_index ?t + 1) mod int (length (display_items ?t))\<rparr>"
    by (rule action_cursor_down_step [OF ne])
  also have "\<dots> = s\<lparr>current_index := (current_index s + 1 + int (Suc k)) mod ?n\<rparr>"
  proof -
    have "((current_index s + 1 + int k) mod ?n + 1) mod ?n = (current_index s + 1 + int k + 1) mod ?n"
      by (rule mod_add_left_eq)
    then show ?thesis by (simp add: add.assoc)
  qed
  finally show ?case .
qed

text \<open>
  Claim C8.  On an empty display list \<open>action_cursor_down\<close> changes nothing.  On a
  non-empty one it moves the index to the next one modulo the length and leaves the list
  alone; after as many steps as the list is long the index is the starting index modulo
  the length, so from an index into the list the state is back where it started.
\<close>

theorem action_cursor_down_wraparound:
  "(display_items s = [] \<longrightarrow> action_cursor_down s = s) \<and>
   (display_items s \<noteq> [] \<longrightarrow>
      current_index (action_cursor_down s) =
        (current_index s + 1) mod int (length (display_items s)) \<and>
      display_items (action_cursor_down s) = display_items s \<and>
      current_index ((action_cursor_down ^^ length (display_items s)) s) =
        current_index s mod int (length (display_items s)) \<and>
      (0 \<le> current_index s \<and> current_index s < int (length (display_items s)) \<longrightarrow>
         (action_cursor_down ^^ length (display_items s)) s = s))"
proof (cases "display_items s = []")
  case True
  then show ?thesis by (simp add: action_cursor_down_def)
next
  case False
  let ?n = "length (display_items s)"
  obtain k where k: "?n = Suc k" using False by (cases "display_items s") auto
  have it: "(action_cursor_down ^^ ?n) s = s\<lparr>current_index := current_index s mod int ?n\<rparr>"
  proof -
    have "(current_index s + 1 + int k) mod int ?n = (current_index s + int ?n) mod int ?n"
      by (simp add: k algebra_simps)
    then show ?thesis
      using action_cursor_down_iterate [OF False, of k] by (simp add: k [symmetric])
  qed
  have again: "0 \<le> current_index s \<and> current_index s < int ?n \<Longrightarrow>
      (action_cursor_down ^^ ?n) s = s"
    by (simp add: it)
  show ?thesis
    using False again by (simp add: action_cursor_down_step [OF False] it)
qed

text \<open>C8 on the example state (five entries, cursor on the last) and on an empty display.\<close>

theorem action_cursor_down_wraparound_witness:
  "display_items example_app \<noteq> [] \<and>
   current_index example_app = 4 \<and>
   current_index (action_cursor_down example_app) = 0 \<and>
   0 \<le> current_index example_app \<and>
   current_index example_app < int (length (display_items example_app)) \<and>
   (action_cursor_down ^^ length (display_items example_app)) example_app = example_app \<and>
   display_items (example_app\<lparr>display_items := []\<rparr>) = [] \<and>
   action_cursor_down (example_app\<lparr>display_items := []\<rparr>) = example_app\<lparr>display_items := []\<rparr>"
proof -
  have ne: "display_items example_app \<noteq> []" by (simp add: example_app_def)
  have i: "current_index example_app = 4" by (simp add: example_app_def)
  have len: "int (length (display_items example_app)) = 5" by (simp add: example_app_def)
  have r: "0 \<le> current_index example_app \<and>
      current_index example_app < int (length (display_items example_app))"
    by (simp add: i len)
  note T = action_cursor_down_wraparound [of example_app, THEN conjunct2, THEN mp, OF ne]
  have "current_index (action_cursor_down example_app) =
      (current_index example_app + 1) mod int (length (display_items example_app))"
    by (rule T [THEN conjunct1])
  then have step: "current_index (action_cursor_down example_app) = 0" by (simp add: i len)
  have loop: "(action_cursor_down ^^ length (display_items example_app)) example_app = example_app"
    by (rule T [THEN conjunct2, THEN conjunct2, THEN conjunct2, THEN mp, OF r])
  have e: "display_items (example_app\<lparr>display_items := []\<rparr>) = []" by simp
  have noop: "action_cursor_down (example_app\<lparr>display_items := []\<rparr>) = example_app\<lparr>display_items := []\<rparr>"
    by (rule action_cursor_down_wraparound [of "example_app\<lparr>display_items := []\<rparr>",
          THEN conjunct1, THEN mp, OF e])
  show ?thesis by (intro conjI ne i step r [THEN conjunct1] r [THEN conjunct2] loop e noop)
qed

section \<open>Properties of the column layout\<close>

lemma cleanup_fields:
  "menu_data (cleanup_empty_categories s) = filter (\<lambda>e. items (snd e) \<noteq> []) (menu_data s)"
  "column_count (cleanup_empty_categories s) = column_count s"
  "max_columns (cleanup_empty_categories s) = max_columns s"
  "current_index (cleanup_empty_categories s) = current_index s"
  "display_items (cleanup_empty_categories s) = display_items s"
  "menu_container (cleanup_empty_categories s) = menu_container s"
  "custom_colors (cleanup_empty_categories s) = custom_colors s"
  "app_title (cleanup_empty_categories s) = app_title s"
  "saves (cleanup_empty_categories s) =
     saves s + (if filter (\<lambda>e. items (snd e) \<noteq> []) (menu_data s) \<noteq> menu_data s then 1 else 0)"
  by (simp_all add: cleanup_empty_categories_def Let_def save_menu_data_def)

lemma update_highlighting_fields:
  "menu_data (update_highlighting s) = menu_data s"
  "column_count (update_highlighting s) = column_count s"
  "max_columns (update_highlighting s) = max_columns s"
  "display_items (update_highlighting s) = display_items s"
  "menu_container (update_highlighting s) = menu_container s"
  "custom_colors (update_highlighting s) = custom_colors s"
  "app_title (update_highlighting s) = app_title s"
  "saves (update_highlighting s) = saves s"
  "config_file (update_highlighting s) = config_file s"
  by (simp_all add: update_highlighting_def)

lemma update_menu_display_unmounted: "\<not> menu_container s \<Longrightarrow> update_menu_display s = s"
  by (simp add: update_menu_display_def)

lemma update_menu_display_fields:
  assumes "menu_container s"
  shows "menu_data (update_menu_display s) =
           map (place (column_count s)) (filter (\<lambda>e. items (snd e) \<noteq> []) (menu_data s))"
    and "column_count (update_menu_display s) = column_count s"
    and "max_columns (update_menu_display s) = max_columns s"
    and "menu_container (update_menu_display s) = menu_container s"
    and "custom_colors (update_menu_display s) = custom_colors s"
    and "app_title (update_menu_display s) = app_title s"
    and "display_items (update_menu_display s) =
           build_display (column_count s)
             (map (place (column_count s)) (filter (\<lambda>e. items (snd e) \<noteq> []) (menu_data s)))"
    and "saves (update_menu_display s) =
           saves s
           + (if filter (\<lambda>e. items (snd e) \<noteq> []) (menu_data s) \<noteq> menu_data s then 1 else 0)
           + (if list_ex (\<lambda>e. column (snd e) \<noteq> Some (max 1 (min (column_count s) (get_column (snd e)))))
                   (filter (\<lambda>e. items (snd e) \<noteq> []) (menu_data s)) then 1 else 0)"
  using assms
  by (simp_all add: update_menu_display_def Let_def update_highlighting_fields cleanup_fields
      normalize_column_value_def place_def save_menu_data_def cong: map_cong)

lemma ensure_category_columns_eq:
  "ensure_category_columns s =
     (list_ex (off_column (column_count s)) (menu_data s),
      s\<lparr>menu_data := map (settle (column_count s)) (menu_data s)\<rparr>)"
  by (simp add: ensure_category_columns_def Let_def normalize_column_value_def settle_def
      off_column_def cong: map_cong list_ex_cong)

lemma settle_facts:
  "fst (settle n e) = fst e"
  "items (snd (settle n e)) = items (snd e)"
  "expanded (snd (settle n e)) = expanded (snd e)"
  "get_column (snd (settle n e)) = max 1 (min n (get_column (snd e)))"
  by (auto simp add: settle_def get_column_def)

lemma update_column_same:
  "(c :: category_data)\<lparr>column := v\<rparr> = c \<longleftrightarrow> column c = v"
proof
  assume "c\<lparr>column := v\<rparr> = c"
  then have "column (c\<lparr>column := v\<rparr>) = column c" by (rule arg_cong)
  then show "column c = v" by simp
next
  assume "column c = v"
  then show "c\<lparr>column := v\<rparr> = c" by (intro category_data.equality) simp_all
qed

lemma settle_id: "settle n e = e \<longleftrightarrow> \<not> off_column n e"
proof (cases e)
  case (Pair a b)
  show ?thesis
    unfolding Pair settle_def off_column_def
    by (auto simp add: update_column_same get_column_def split: option.splits)
qed

lemma place_settle: "place n (settle n e) = place n e"
  by (auto simp add: place_def settle_def get_column_def)

lemma place_facts:
  "fst (place n e) = fst e"
  "items (snd (place n e)) = items (snd e)"
  "expanded (snd (place n e)) = expanded (snd e)"
  "column (snd (place n e)) = Some (max 1 (min n (get_column (snd e))))"
  "get_column (snd (place n e)) = max 1 (min n (get_column (snd e)))"
  by (simp_all add: place_def get_column_def)

lemma place_id: "place n e = e \<longleftrightarrow> column (snd e) = Some (max 1 (min n (get_column (snd e))))"
  by (cases e) (simp add: place_def update_column_same)

lemma place_id_settled: "place n e = e \<Longrightarrow> \<not> off_column n e"
proof -
  assume "place n e = e"
  then have c: "column (snd e) = Some (max 1 (min n (get_column (snd e))))" by (simp add: place_id)
  then have "get_column (snd e) = max 1 (min n (get_column (snd e)))"
    unfolding get_column_def by (cases "column (snd e)") auto
  then show ?thesis by (simp add: off_column_def)
qed

lemma filter_settle:
  "filter (\<lambda>e. items (snd e) \<noteq> []) (map (settle n) md) =
   map (settle n) (filter (\<lambda>e. items (snd e) \<noteq> []) md)"
  by (induction md) (simp_all add: settle_facts)

lemma map_filter_id:
  assumes "map f (filter P xs) = xs"
  shows "filter P xs = xs" and "\<And>x. x \<in> set xs \<Longrightarrow> f x = x"
proof -
  have "length (filter P xs) = length xs"
    using assms by (metis length_map)
  then show f: "filter P xs = xs"
    by (metis filter_True length_filter_less linorder_not_less order_refl)
  fix x assume "x \<in> set xs"
  then show "f x = x" using assms f by (simp add: map_idI map_eq_conv [where g = id, simplified])
qed

lemma update_menu_display_config:
  assumes "saves (update_menu_display s) = saves s"
  shows "config_file (update_menu_display s) = config_file s"
proof (cases "menu_container s")
  case False
  then show ?thesis by (simp add: update_menu_display_unmounted)
next
  case True
  have a: "filter (\<lambda>e. items (snd e) \<noteq> []) (menu_data s) = menu_data s"
    and b: "\<not> list_ex (\<lambda>e. column (snd e) \<noteq> Some (max 1 (min (column_count s) (get_column (snd e)))))
                   (filter (\<lambda>e. items (snd e) \<noteq> []) (menu_data s))"
    using assms unfolding update_menu_display_fields(8) [OF True]
    by (auto split: if_splits)
  show ?thesis
    using True a b
    by (simp add: update_menu_display_def Let_def update_highlighting_fields
        cleanup_empty_categories_def normalize_column_value_def cong: list_ex_cong)
qed

lemma set_column_count_unmounted:
  assumes "\<not> menu_container s"
  shows "snd (set_column_count s n True False True) =
           (let n' = max 1 (min (max_columns s) n);
                s2 = s\<lparr>column_count := n', menu_data := map (settle n') (menu_data s)\<rparr>
            in if n' \<noteq> column_count s \<or> list_ex (off_column n') (menu_data s)
               then save_menu_data s2 else s2)"
  using assms
  by (simp add: set_column_count_def clamp_column_count_def ensure_category_columns_eq Let_def
      save_menu_data_def)

lemma set_column_count_mounted:
  assumes "menu_container s"
  shows "snd (set_column_count s n True False True) =
           (let n' = max 1 (min (max_columns s) n);
                s2 = s\<lparr>column_count := n', menu_data := map (settle n') (menu_data s)\<rparr>
            in update_menu_display
                 (if n' \<noteq> column_count s \<or> list_ex (off_column n') (menu_data s)
                  then save_menu_data s2 else s2))"
  using assms
  by (simp add: set_column_count_def clamp_column_count_def ensure_category_columns_eq Let_def
      save_menu_data_def)

lemma misplaced_place: "misplaced n e \<longleftrightarrow> place n e \<noteq> e"
  by (simp add: misplaced_def place_id)

lemma clamp_idem: "max 1 (min n (max 1 (min n x))) = max (1::int) (min n x)"
  by (simp add: max_def min_def)

lemma misplaced_settle:
  "misplaced n (settle n e) \<longleftrightarrow> column (snd e) = None \<and> \<not> off_column n e"
  by (auto simp add: misplaced_def settle_def off_column_def get_column_def clamp_idem
      split: option.splits)

lemma off_column_misplaced: "off_column n e \<Longrightarrow> misplaced n e"
  by (auto simp add: misplaced_def off_column_def get_column_def split: option.splits)

lemma column_settle_changed: "off_column n e \<Longrightarrow> column (snd (settle n e)) \<noteq> column (snd e)"
  by (auto simp add: settle_def off_column_def get_column_def split: option.splits)

lemma set_column_count_fields:
  fixes s n
  defines "n' \<equiv> max 1 (min (max_columns s) n)"
  defines "s' \<equiv> snd (set_column_count s n True False True)"
  defines "ch \<equiv> (n' \<noteq> column_count s \<or> list_ex (off_column n') (menu_data s))"
  shows "column_count s' = n'"
    and "menu_data s' =
           (if menu_container s
            then map (place n') (filter (\<lambda>e. items (snd e) \<noteq> []) (menu_data s))
            else map (settle n') (menu_data s))"
    and "saves s' =
           saves s + (if ch then 1 else 0)
           + (if menu_container s
              then (if \<not> list_all (\<lambda>e. items (snd e) \<noteq> []) (menu_data s) then 1 else 0)
                 + (if list_ex (misplaced n')
                        (map (settle n') (filter (\<lambda>e. items (snd e) \<noteq> []) (menu_data s)))
                    then 1 else 0)
              else 0)"
    and "saves s' = saves s \<Longrightarrow> config_file s' = config_file s"
proof -
  let ?s2 = "s\<lparr>column_count := n', menu_data := map (settle n') (menu_data s)\<rparr>"
  let ?t = "if ch then save_menu_data ?s2 else ?s2"
  have t: "column_count ?t = n'" "menu_data ?t = map (settle n') (menu_data s)"
    "saves ?t = saves s + (if ch then 1 else 0)" "menu_container ?t = menu_container s"
    by (simp_all add: save_menu_data_def)
  have tc: "\<not> ch \<Longrightarrow> config_file ?t = config_file s" by simp
  have s': "s' = (if menu_container s then update_menu_display ?t else ?t)"
    unfolding s'_def n'_def ch_def
    using set_column_count_mounted [of s n] set_column_count_unmounted [of s n]
    by (simp add: Let_def)
  have "(filter (\<lambda>e. items (snd e) \<noteq> []) (map (settle n') (menu_data s)) \<noteq> map (settle n') (menu_data s))
      = (\<not> list_all (\<lambda>e. items (snd e) \<noteq> []) (menu_data s))"
    by (simp add: filter_id_conv list_all_iff settle_facts)
  then have fl: "(map (settle n') (filter (\<lambda>e. items (snd e) \<noteq> []) (menu_data s)) \<noteq> map (settle n') (menu_data s))
      = (\<not> list_all (\<lambda>e. items (snd e) \<noteq> []) (menu_data s))"
    by (simp only: filter_settle)
  show "column_count s' = n'"
    using t by (simp add: s' update_menu_display_fields)
  show "menu_data s' =
           (if menu_container s
            then map (place n') (filter (\<lambda>e. items (snd e) \<noteq> []) (menu_data s))
            else map (settle n') (menu_data s))"
    using t by (simp add: s' update_menu_display_fields filter_settle place_settle cong: map_cong)
  show sv: "saves s' =
           saves s + (if ch then 1 else 0)
           + (if menu_container s
              then (if \<not> list_all (\<lambda>e. items (snd e) \<noteq> []) (menu_data s) then 1 else 0)
                 + (if list_ex (misplaced n')
                        (map (settle n') (filter (\<lambda>e. items (snd e) \<noteq> []) (menu_data s)))
                    then 1 else 0)
              else 0)"
  proof (cases "menu_container s")
    case False
    then show ?thesis using t by (simp add: s')
  next
    case True
    then have m: "menu_container ?t" using t by simp
    show ?thesis
      unfolding s' using True
      by (simp only: if_True update_menu_display_fields(8) [OF m] t fl filter_settle
          misplaced_def [abs_def] add.assoc)
  qed
  show "config_file s' = config_file s" if eq: "saves s' = saves s"
  proof -
    have nch: "\<not> ch" using eq unfolding sv by (auto split: if_splits)
    show ?thesis
    proof (cases "menu_container s")
      case False
      then show ?thesis using nch by (simp add: s')
    next
      case True
      have "saves (update_menu_display ?t) = saves ?t"
        using eq True nch by (simp add: s')
      then have "config_file (update_menu_display ?t) = config_file ?t"
        by (rule update_menu_display_config)
      then show ?thesis using True nch by (simp add: s')
    qed
  qed
qed

text \<open>
  Claim C5, for \<open>set_column_count(n)\<close> with its default flags.
  \<^item> The new column count is \<open>n\<close> clamped to \<open>[1, max_columns]\<close>.
  \<^item> Afterwards every category's column lies between 1 and the new count.
  \<^item> A call that leaves the count and the tree as they were writes nothing.
  \<^item> In a tree without empty categories, a write happens only when the count or the
    stored column of some category has changed.
  \<^item> If moreover every category has a stored column, the call writes exactly once when
    the count or the tree has changed, and not at all otherwise.
\<close>

theorem set_column_count_clamps_and_persists:
  "let s' = snd (set_column_count s n True False True) in
     column_count s' = max 1 (min (max_columns s) n) \<and>
     (1 \<le> max_columns s \<longrightarrow> 1 \<le> column_count s' \<and> column_count s' \<le> max_columns s) \<and>
     list_all (\<lambda>e. 1 \<le> get_column (snd e) \<and> get_column (snd e) \<le> column_count s')
       (menu_data s') \<and>
     (column_count s' = column_count s \<and> menu_data s' = menu_data s \<longrightarrow>
        saves s' = saves s \<and> config_file s' = config_file s) \<and>
     (list_all (\<lambda>e. items (snd e) \<noteq> []) (menu_data s) \<longrightarrow>
        saves s' \<noteq> saves s \<longrightarrow>
        column_count s' \<noteq> column_count s \<or>
        map (\<lambda>e. column (snd e)) (menu_data s') \<noteq> map (\<lambda>e. column (snd e)) (menu_data s)) \<and>
     (list_all (\<lambda>e. items (snd e) \<noteq> [] \<and> column (snd e) \<noteq> None) (menu_data s) \<longrightarrow>
        saves s' =
          saves s + (if column_count s' \<noteq> column_count s \<or> menu_data s' \<noteq> menu_data s
                     then 1 else 0))"
proof -
  define n' where "n' = max 1 (min (max_columns s) n)"
  define s' where "s' = snd (set_column_count s n True False True)"
  define md where "md = menu_data s"
  define ne where "ne = (\<lambda>e :: string \<times> category_data. items (snd e) \<noteq> [])"
  define ch where "ch = (n' \<noteq> column_count s \<or> list_ex (off_column n') md)"
  note F = set_column_count_fields [of s n, folded n'_def s'_def md_def ne_def, folded ch_def]
  have cc: "column_count s' = n'" by (rule F(1))
  have menu: "menu_data s' = (if menu_container s then map (place n') (filter ne md) else map (settle n') md)"
    by (rule F(2))
  have sv: "saves s' = saves s + (if ch then 1 else 0)
           + (if menu_container s
              then (if \<not> list_all ne md then 1 else 0)
                 + (if list_ex (misplaced n') (map (settle n') (filter ne md)) then 1 else 0)
              else 0)"
    by (rule F(3))
  have n1: "1 \<le> n'" by (simp add: n'_def)
  have A2: "1 \<le> max_columns s \<longrightarrow> 1 \<le> column_count s' \<and> column_count s' \<le> max_columns s"
    by (simp add: cc n'_def)
  have B: "list_all (\<lambda>e. 1 \<le> get_column (snd e) \<and> get_column (snd e) \<le> column_count s') (menu_data s')"
    using n1 by (simp add: cc menu list_all_iff place_facts settle_facts)
  \<comment> \<open>a call that leaves the count and the tree as they were\<close>
  have same: "\<not> ch \<and> list_all ne md \<and> \<not> list_ex (misplaced n') (map (settle n') (filter ne md))"
    if eq: "column_count s' = column_count s" "menu_data s' = md" "menu_container s"
  proof -
    have m: "map (place n') (filter ne md) = md" using eq menu by simp
    have f: "filter ne md = md" by (rule map_filter_id(1) [OF m])
    have p: "\<And>e. e \<in> set md \<Longrightarrow> place n' e = e" by (rule map_filter_id(2) [OF m])
    have off: "\<And>e. e \<in> set md \<Longrightarrow> \<not> off_column n' e" using p place_id_settled by blast
    have "\<not> ch" using eq(1) off by (auto simp add: ch_def cc list_ex_iff)
    moreover have "list_all ne md" using f by (simp add: filter_id_conv list_all_iff)
    moreover have "\<not> misplaced n' (settle n' e)" if "e \<in> set md" for e
      using p [OF that] off [OF that] by (simp add: misplaced_settle place_id)
    ultimately show ?thesis by (simp add: f list_ex_iff)
  qed
  have same_un: "\<not> ch"
    if eq: "column_count s' = column_count s" "menu_data s' = md" "\<not> menu_container s"
  proof -
    have "map (settle n') md = md" using eq menu by simp
    then have "\<And>e. e \<in> set md \<Longrightarrow> settle n' e = e" by (simp add: map_idI map_eq_conv [where g = id, simplified])
    then have "\<And>e. e \<in> set md \<Longrightarrow> \<not> off_column n' e" by (simp add: settle_id)
    then show ?thesis using eq(1) by (auto simp add: ch_def cc list_ex_iff)
  qed
  have C1: "saves s' = saves s" if eq: "column_count s' = column_count s \<and> menu_data s' = md"
  proof (cases "menu_container s")
    case True
    then show ?thesis using same [OF _ _ True] eq by (simp add: sv)
  next
    case False
    then show ?thesis using same_un [OF _ _ False] eq by (simp add: sv)
  qed
  have C: "column_count s' = column_count s \<and> menu_data s' = md \<longrightarrow>
        saves s' = saves s \<and> config_file s' = config_file s"
    using C1 F(4) by blast
  \<comment> \<open>with no empty category, the tree changes only in its columns\<close>
  have cols: "menu_data s' = md"
    if i2: "list_all ne md" and c: "map (\<lambda>e. column (snd e)) (menu_data s') = map (\<lambda>e. column (snd e)) md"
  proof -
    have f: "filter ne md = md" using i2 by (simp add: filter_id_conv list_all_iff)
    show ?thesis
    proof (cases "menu_container s")
      case True
      then have "map (\<lambda>e. column (snd (place n' e))) md = map (\<lambda>e. column (snd e)) md"
        using c menu f by (simp add: comp_def)
      then have "\<And>e. e \<in> set md \<Longrightarrow> column (snd (place n' e)) = column (snd e)"
        by (simp add: map_eq_conv)
      then have "\<And>e. e \<in> set md \<Longrightarrow> place n' e = e"
        by (simp add: place_id place_facts)
      then show ?thesis using True menu f by (simp add: map_idI)
    next
      case False
      then have "map (\<lambda>e. column (snd (settle n' e))) md = map (\<lambda>e. column (snd e)) md"
        using c menu by (simp add: comp_def)
      then have "\<And>e. e \<in> set md \<Longrightarrow> column (snd (settle n' e)) = column (snd e)"
        by (simp add: map_eq_conv)
      then have "\<And>e. e \<in> set md \<Longrightarrow> settle n' e = e"
        using column_settle_changed settle_id by blast
      then show ?thesis using False menu by (simp add: map_idI)
    qed
  qed
  have D: "list_all ne md \<longrightarrow> saves s' \<noteq> saves s \<longrightarrow>
        column_count s' \<noteq> column_count s \<or>
        map (\<lambda>e. column (snd e)) (menu_data s') \<noteq> map (\<lambda>e. column (snd e)) md"
    using cols C1 by blast
  have E: "saves s' = saves s + (if column_count s' \<noteq> column_count s \<or> menu_data s' \<noteq> md then 1 else 0)"
    if h: "list_all (\<lambda>e. ne e \<and> column (snd e) \<noteq> None) md"
  proof -
    have i2: "list_all ne md" using h by (simp add: list_all_iff)
    have f: "filter ne md = md" using i2 by (simp add: filter_id_conv list_all_iff)
    have col: "\<And>e. e \<in> set md \<Longrightarrow> column (snd e) \<noteq> None" using h by (simp add: list_all_iff)
    have nm: "\<not> list_ex (misplaced n') (map (settle n') (filter ne md))"
      using col by (simp add: f list_ex_iff misplaced_settle)
    have sv': "saves s' = saves s + (if ch then 1 else 0)" using i2 nm by (simp add: sv)
    have "ch \<longleftrightarrow> column_count s' \<noteq> column_count s \<or> menu_data s' \<noteq> md"
    proof
      assume ch
      show "column_count s' \<noteq> column_count s \<or> menu_data s' \<noteq> md"
      proof (rule ccontr)
        assume "\<not> (column_count s' \<noteq> column_count s \<or> menu_data s' \<noteq> md)"
        then have "column_count s' = column_count s" "menu_data s' = md" by simp_all
        then have "\<not> ch" using same same_un by blast
        then show False using \<open>ch\<close> by simp
      qed
    next
      assume a: "column_count s' \<noteq> column_count s \<or> menu_data s' \<noteq> md"
      show ch
      proof (rule ccontr)
        assume nch: "\<not> ch"
        then have c1: "column_count s' = column_count s" and
          off: "\<And>e. e \<in> set md \<Longrightarrow> \<not> off_column n' e"
          by (auto simp add: ch_def cc list_ex_iff)
        have "settle n' e = e \<and> place n' e = e" if em: "e \<in> set md" for e
        proof -
          obtain x where x: "column (snd e) = Some x" using col [OF em] by auto
          have "x = max 1 (min n' x)" using off [OF em] x by (simp add: off_column_def get_column_def)
          then have "column (snd e) = Some (max 1 (min n' (get_column (snd e))))"
            using x by (simp add: get_column_def)
          then show ?thesis using off [OF em] by (simp add: place_id settle_id)
        qed
        then have "menu_data s' = md" using menu f by (simp add: map_idI)
        then show False using a c1 by simp
      qed
    qed
    then show ?thesis using sv' by simp
  qed
  show ?thesis
    unfolding Let_def s'_def [symmetric] md_def [symmetric] ne_def [symmetric]
    using cc [unfolded n'_def] A2 B C D E
    unfolding md_def ne_def by (intro conjI impI) auto
qed

text \<open>
  C5 on the example state: \<open>set_column_count(1)\<close> moves both categories to column 1 and
  writes once; \<open>set_column_count(3)\<close> changes nothing and writes nothing.
\<close>

theorem set_column_count_clamps_and_persists_witness:
  "1 \<le> max_columns example_app \<and>
   list_all (\<lambda>e. items (snd e) \<noteq> [] \<and> column (snd e) \<noteq> None) (menu_data example_app) \<and>
   column_count (snd (set_column_count example_app 1 True False True)) = 1 \<and>
   map (\<lambda>e. get_column (snd e)) (menu_data (snd (set_column_count example_app 1 True False True))) = [1, 1] \<and>
   saves (snd (set_column_count example_app 1 True False True)) = saves example_app + 1 \<and>
   column_count (snd (set_column_count example_app 3 True False True)) = column_count example_app \<and>
   menu_data (snd (set_column_count example_app 3 True False True)) = menu_data example_app \<and>
   saves (snd (set_column_count example_app 3 True False True)) = saves example_app \<and>
   config_file (snd (set_column_count example_app 3 True False True)) = config_file example_app"
proof -
  let ?a = "snd (set_column_count example_app 1 True False True)"
  let ?b = "snd (set_column_count example_app 3 True False True)"
  note A = set_column_count_clamps_and_persists [of example_app 1, unfolded Let_def]
  note B = set_column_count_clamps_and_persists [of example_app 3, unfolded Let_def]
  have m: "1 \<le> max_columns example_app" by (simp add: example_app_def)
  have i: "list_all (\<lambda>e. items (snd e) \<noteq> [] \<and> column (snd e) \<noteq> None) (menu_data example_app)"
    by (simp add: example_app_def example_menu_def)
  have a1: "column_count ?a = 1"
    using A [THEN conjunct1] by (simp add: example_app_def)
  have a2: "map (\<lambda>e. get_column (snd e)) (menu_data ?a) = [1, 1]" by code_simp
  have "saves ?a = saves example_app +
      (if column_count ?a \<noteq> column_count example_app \<or> menu_data ?a \<noteq> menu_data example_app
       then 1 else 0)"
    by (rule A [THEN conjunct2, THEN conjunct2, THEN conjunct2, THEN conjunct2, THEN conjunct2,
          THEN mp, OF i])
  then have a3: "saves ?a = saves example_app + 1"
    by (simp add: a1) (simp add: example_app_def)
  have b1: "column_count ?b = column_count example_app"
    using B [THEN conjunct1] by (simp add: example_app_def)
  have b2: "menu_data ?b = menu_data example_app" by code_simp
  have b3: "saves ?b = saves example_app \<and> config_file ?b = config_file example_app"
    by (rule B [THEN conjunct2, THEN conjunct2, THEN conjunct2, THEN conjunct1, THEN mp,
          OF conjI [OF b1 b2]])
  show ?thesis by (intro conjI m i a1 a2 a3 b1 b2 b3 [THEN conjunct1] b3 [THEN conjunct2])
qed

section \<open>Properties of adding, updating and deleting items\<close>

lemma map_of_place:
  "map_of (map (place n) md) k =
     map_option (\<lambda>c. c\<lparr>column := Some (max 1 (min n (get_column c)))\<rparr>) (map_of md k)"
  by (induction md) (auto simp add: place_def)

lemma map_of_filter_first:
  "map_of md k = Some c \<Longrightarrow> items c \<noteq> [] \<Longrightarrow>
   map_of (filter (\<lambda>e. items (snd e) \<noteq> []) md) k = Some c"
  by (induction md) (auto split: if_splits)

lemma map_of_filter_none: "map_of md k = None \<Longrightarrow> map_of (filter P md) k = None"
  by (induction md) (auto split: if_splits)

lemma map_of_append_item:
  "map_of (append_item k it md) k' =
     (if k' = k then map_option (\<lambda>c. c\<lparr>items := items c @ [it]\<rparr>) (map_of md k)
      else map_of md k')"
  by (induction md) (auto simp add: append_item_def)

lemma menu_after_display:
  "menu_data (update_menu_display t) =
     (if menu_container t
      then map (place (column_count t)) (filter (\<lambda>e. items (snd e) \<noteq> []) (menu_data t))
      else menu_data t)"
  by (simp add: update_menu_display_fields update_menu_display_unmounted)

lemma lookup_after_display_none:
  "map_of (menu_data t) k = None \<Longrightarrow> map_of (menu_data (update_menu_display t)) k = None"
  by (simp add: menu_after_display map_of_place map_of_filter_none)

lemma lookup_after_display_some:
  assumes "map_of (menu_data t) k = Some c" "items c \<noteq> []"
  shows "map_of (menu_data (update_menu_display t)) k =
           Some (if menu_container t
                 then c\<lparr>column := Some (max 1 (min (column_count t) (get_column c)))\<rparr> else c)"
  using assms by (simp add: menu_after_display map_of_place map_of_filter_first)

lemma count_after_display: "column_count (update_menu_display t) = column_count t"
  by (cases "menu_container t") (simp_all add: update_menu_display_fields update_menu_display_unmounted)

lemma saves_after_display: "saves t \<le> saves (update_menu_display t)"
  by (cases "menu_container t") (simp_all add: update_menu_display_fields update_menu_display_unmounted)

lemma add_new_item_creates:
  assumes "map_of (menu_data t) (category new) = None"
  shows "map_of (menu_data (add_new_item t new)) (category new) =
           Some \<lparr>expanded = True, column = Some (max 1 (min (column_count t) 1)), colors = None,
                 items = [new]\<rparr>"
proof -
  let ?c = "\<lparr>expanded = True, column = Some (max 1 (min (column_count t) 1)), colors = None,
             items = [new]\<rparr>"
  let ?md = "append_item (category new) new (menu_data t @ [(category new, new_category t)])"
  let ?u = "save_menu_data (t\<lparr>menu_data := ?md\<rparr>)"
  have u: "menu_data ?u = ?md" "column_count ?u = column_count t" "menu_container ?u = menu_container t"
    by (simp_all add: save_menu_data_def)
  have "map_of ?md (category new) = Some ?c"
    using assms
    by (simp add: map_of_append_item new_category_def normalize_column_value_def map_add_def)
  then have "map_of (menu_data ?u) (category new) = Some ?c" by (simp only: u)
  then have "map_of (menu_data (update_menu_display ?u)) (category new) =
      Some (if menu_container ?u
            then ?c\<lparr>column := Some (max 1 (min (column_count ?u) (get_column ?c)))\<rparr> else ?c)"
    by (rule lookup_after_display_some) simp
  moreover have "?c\<lparr>column := Some (max 1 (min (column_count ?u) (get_column ?c)))\<rparr> = ?c"
    by (simp add: u get_column_def clamp_idem)
  moreover have "add_new_item t new = update_menu_display ?u"
    using assms by (simp add: add_new_item_def Let_def)
  ultimately show ?thesis by simp
qed

lemma py_index_Some_nonempty: "py_index xs i = Some x \<Longrightarrow> xs \<noteq> []"
  by (auto simp add: py_index_def Let_def split: if_splits)

lemma action_delete_item_found:
  assumes "current_index s < int (length (display_items s))"
    and "py_index (display_items s) (current_index s) = Some (Item it)"
    and "map_of (menu_data s) (category it) = Some c"
    and "it \<in> set (items c)"
  shows "action_delete_item s =
           Some (let s1 = update_menu_display (save_menu_data (s\<lparr>menu_data := pruned it c (menu_data s)\<rparr>))
                 in if current_index s1 \<ge> int (length (display_items s1)) - 1
                    then s1\<lparr>current_index := max 0 (int (length (display_items s1)) - 2)\<rparr>
                    else s1)"
  using assms py_index_Some_nonempty [OF assms(2)]
  by (simp add: action_delete_item_def Let_def pruned_def)

lemma map_of_pruned:
  "map_of (pruned it c md) (category it) =
     (if remove1 it (items c) = [] then None else Some (c\<lparr>items := remove1 it (items c)\<rparr>))"
  by (simp add: pruned_def update_conv' delete_conv')

lemma map_of_pruned_other:
  "k \<noteq> category it \<Longrightarrow> map_of (pruned it c md) k = map_of md k"
  by (simp add: pruned_def update_conv' delete_conv')

text \<open>
  Claim C3.  Let the cursor stand on an item whose category is in the tree and holds an
  equal item.  Then \<open>action_delete_item\<close> returns, writes the configuration file, and
  \<^item> if other items remain, the category now holds its former items with the first item
    equal to the deleted one removed;
  \<^item> if none remains, the category is gone from the tree, and \<open>add_new_item\<close> with an
    item of that category creates it again, holding just that item.
\<close>

theorem action_delete_item_removes:
  assumes "current_index s < int (length (display_items s))"
    and "py_index (display_items s) (current_index s) = Some (Item it)"
    and "map_of (menu_data s) (category it) = Some c"
    and "it \<in> set (items c)"
  shows "\<exists>s'. action_delete_item s = Some s' \<and>
           saves s < saves s' \<and>
           (remove1 it (items c) \<noteq> [] \<longrightarrow>
              map_option items (map_of (menu_data s') (category it)) =
                Some (remove1 it (items c))) \<and>
           (remove1 it (items c) = [] \<longrightarrow>
              map_of (menu_data s') (category it) = None \<and>
              (\<forall>new. category new = category it \<longrightarrow>
                 map_of (menu_data (add_new_item s' new)) (category it) =
                   Some \<lparr>expanded = True, column = Some 1, colors = None, items = [new]\<rparr>))"
proof -
  define t where "t = save_menu_data (s\<lparr>menu_data := pruned it c (menu_data s)\<rparr>)"
  define s1 where "s1 = update_menu_display t"
  define s' where "s' = (if current_index s1 \<ge> int (length (display_items s1)) - 1
                    then s1\<lparr>current_index := max 0 (int (length (display_items s1)) - 2)\<rparr>
                    else s1)"
  have res: "action_delete_item s = Some s'"
    unfolding s'_def s1_def t_def using action_delete_item_found [OF assms] by (simp add: Let_def)
  have t: "menu_data t = pruned it c (menu_data s)" "saves t = saves s + 1"
    by (simp_all add: t_def save_menu_data_def)
  have m: "menu_data s' = menu_data s1" "saves s' = saves s1" "column_count s' = column_count s1"
    by (simp_all add: s'_def)
  have sv: "saves s < saves s'"
    using saves_after_display [of t] by (simp add: m s1_def t)
  have keep: "map_option items (map_of (menu_data s') (category it)) = Some (remove1 it (items c))"
    if ne: "remove1 it (items c) \<noteq> []"
  proof -
    have "map_of (menu_data t) (category it) = Some (c\<lparr>items := remove1 it (items c)\<rparr>)"
      using ne by (simp add: t map_of_pruned)
    then show ?thesis
      using ne lookup_after_display_some [of t "category it" "c\<lparr>items := remove1 it (items c)\<rparr>"]
      by (simp add: m s1_def)
  qed
  have gone: "map_of (menu_data s') (category it) = None" if e: "remove1 it (items c) = []"
  proof -
    have "map_of (menu_data t) (category it) = None" using e by (simp add: t map_of_pruned)
    then show ?thesis by (simp add: m s1_def lookup_after_display_none)
  qed
  have reuse: "map_of (menu_data (add_new_item s' new)) (category it) =
                   Some \<lparr>expanded = True, column = Some 1, colors = None, items = [new]\<rparr>"
    if e: "remove1 it (items c) = []" and k: "category new = category it" for new
  proof -
    have "map_of (menu_data s') (category new) = None" using gone [OF e] k by simp
    then show ?thesis using add_new_item_creates [of s' new] k by simp
  qed
  show ?thesis using res sv keep gone reuse by blast
qed

lemma cleanup_index: "current_index (cleanup_empty_categories s) = current_index s"
  by (simp add: cleanup_fields)

lemma index_after_display:
  "current_index (update_menu_display t) =
     (if menu_container t \<and> display_items (update_menu_display t) \<noteq> []
      then max 0 (min (current_index t) (int (length (display_items (update_menu_display t))) - 1))
      else current_index t)"
proof (cases "menu_container t")
  case False
  then show ?thesis by (simp add: update_menu_display_unmounted)
next
  case True
  define u where "u = cleanup_empty_categories (t\<lparr>display_items := []\<rparr>)"
  have u: "current_index u = current_index t" by (simp add: u_def cleanup_fields)
  show ?thesis
    using True u
    by (simp add: update_menu_display_def Let_def u_def [symmetric] update_highlighting_def
        save_menu_data_def)
qed

text \<open>
  Claim C10.  After such a deletion the display list is rebuilt from the tree, and with
  \<open>n\<close> its new length: if the cursor index was at least \<open>n - 1\<close>, the cursor is set to
  \<open>max(0, n - 2)\<close>, otherwise it stays.  With two or more entries left this is the
  entry before the last one, not the last valid index \<open>max(0, n - 1)\<close>.
\<close>

theorem action_delete_item_cursor:
  assumes "0 \<le> current_index s"
    and "current_index s < int (length (display_items s))"
    and "py_index (display_items s) (current_index s) = Some (Item it)"
    and "map_of (menu_data s) (category it) = Some c"
    and "it \<in> set (items c)"
  shows "\<exists>s'. action_delete_item s = Some s' \<and>
           (menu_container s \<longrightarrow>
              display_items s' = build_display (column_count s) (menu_data s')) \<and>
           current_index s' =
             (if int (length (display_items s')) - 1 \<le> current_index s
              then max 0 (int (length (display_items s')) - 2) else current_index s) \<and>
           (2 \<le> length (display_items s') \<and>
            int (length (display_items s')) - 1 \<le> current_index s \<longrightarrow>
              current_index s' = int (length (display_items s')) - 2 \<and>
              current_index s' \<noteq> max 0 (int (length (display_items s')) - 1))"
proof -
  define t where "t = save_menu_data (s\<lparr>menu_data := pruned it c (menu_data s)\<rparr>)"
  define s1 where "s1 = update_menu_display t"
  define n where "n = int (length (display_items s1))"
  define s' where "s' = (if current_index s1 \<ge> n - 1
                    then s1\<lparr>current_index := max 0 (n - 2)\<rparr> else s1)"
  have res: "action_delete_item s = Some s'"
    unfolding s'_def n_def s1_def t_def
    using action_delete_item_found [OF assms(2-5)] by (simp add: Let_def)
  have t: "current_index t = current_index s" "menu_container t = menu_container s"
    "column_count t = column_count s"
    by (simp_all add: t_def save_menu_data_def)
  have d: "display_items s' = display_items s1" "menu_data s' = menu_data s1"
    by (simp_all add: s'_def)
  have n0: "0 \<le> n" by (simp add: n_def)
  have i1: "current_index s1 =
      (if menu_container s \<and> n \<noteq> 0 then max 0 (min (current_index s) (n - 1))
       else current_index s)"
    unfolding s1_def n_def using index_after_display [of t] by (simp add: t)
  have cond: "(n - 1 \<le> current_index s1) = (n - 1 \<le> current_index s)"
    unfolding i1 using assms(1) n0 by (simp add: max_def min_def)
  have keep: "current_index s1 = current_index s" if "\<not> n - 1 \<le> current_index s"
    unfolding i1 using assms(1) that by (simp add: max_def min_def)
  have idx: "current_index s' = (if n - 1 \<le> current_index s then max 0 (n - 2) else current_index s)"
  proof (cases "n - 1 \<le> current_index s")
    case True
    then show ?thesis by (simp add: s'_def cond)
  next
    case False
    then show ?thesis using keep by (simp add: s'_def cond)
  qed
  have disp: "display_items s' = build_display (column_count s) (menu_data s')" if "menu_container s"
    using that by (simp add: d s1_def update_menu_display_fields t)
  have last: "current_index s' = n - 2 \<and> current_index s' \<noteq> max 0 (n - 1)"
    if "2 \<le> n \<and> n - 1 \<le> current_index s"
    using that by (simp add: idx)
  have n': "int (length (display_items s')) = n" by (simp add: d n_def)
  have two: "(2 \<le> length (display_items s')) = (2 \<le> n)" by (simp add: d n_def)
  show ?thesis
  proof (intro exI [of _ s'] conjI)
    show "action_delete_item s = Some s'" by (rule res)
    show "menu_container s \<longrightarrow> display_items s' = build_display (column_count s) (menu_data s')"
      using disp by (rule impI)
    show "current_index s' =
             (if int (length (display_items s')) - 1 \<le> current_index s
              then max 0 (int (length (display_items s')) - 2) else current_index s)"
      unfolding n' by (rule idx)
    show "2 \<le> length (display_items s') \<and>
            int (length (display_items s')) - 1 \<le> current_index s \<longrightarrow>
              current_index s' = int (length (display_items s')) - 2 \<and>
              current_index s' \<noteq> max 0 (int (length (display_items s')) - 1)"
      unfolding n' two using last by (rule impI)
  qed
qed

text \<open>Facts about the example state.\<close>

lemma example_dev:
  "current_index example_app < int (length (display_items example_app))"
  "0 \<le> current_index example_app"
  "py_index (display_items example_app) (current_index example_app) = Some (Item vim_dev_item)"
  "map_of (menu_data example_app) (category vim_dev_item) =
     Some \<lparr>expanded = True, column = Some 3, colors = None, items = [vim_dev_item]\<rparr>"
  "category vim_dev_item = ''Dev''"
  by (simp_all add: example_app_def example_menu_def vim_dev_item_def py_index_def)

lemma example_htop:
  "current_index (example_app\<lparr>current_index := 1\<rparr>)
     < int (length (display_items (example_app\<lparr>current_index := 1\<rparr>)))"
  "py_index (display_items (example_app\<lparr>current_index := 1\<rparr>))
     (current_index (example_app\<lparr>current_index := 1\<rparr>)) = Some (Item htop_item)"
  "map_of (menu_data (example_app\<lparr>current_index := 1\<rparr>)) (category htop_item) =
     Some \<lparr>expanded = True, column = Some 1, colors = None, items = [htop_item, vim_tools_item]\<rparr>"
  "category htop_item = ''System Tools''"
  by (simp_all add: example_app_def example_menu_def htop_item_def py_index_def)

text \<open>
  C3 on the example state: deleting the only item of \<open>Dev\<close> removes \<open>Dev\<close>, which a new
  item brings back; deleting \<open>System Monitor\<close> leaves \<open>System Tools\<close> with its other item.
\<close>

theorem action_delete_item_removes_witness:
  "current_index example_app < int (length (display_items example_app)) \<and>
   py_index (display_items example_app) (current_index example_app) = Some (Item vim_dev_item) \<and>
   map_of (menu_data example_app) (category vim_dev_item) =
     Some \<lparr>expanded = True, column = Some 3, colors = None, items = [vim_dev_item]\<rparr> \<and>
   (\<exists>s'. action_delete_item example_app = Some s' \<and>
         map_of (menu_data s') ''Dev'' = None \<and>
         map_of (menu_data (add_new_item s' vim_dev_item)) ''Dev'' =
           Some \<lparr>expanded = True, column = Some 1, colors = None, items = [vim_dev_item]\<rparr>) \<and>
   py_index (display_items (example_app\<lparr>current_index := 1\<rparr>))
     (current_index (example_app\<lparr>current_index := 1\<rparr>)) = Some (Item htop_item) \<and>
   map_of (menu_data (example_app\<lparr>current_index := 1\<rparr>)) (category htop_item) =
     Some \<lparr>expanded = True, column = Some 1, colors = None, items = [htop_item, vim_tools_item]\<rparr> \<and>
   (\<exists>s'. action_delete_item (example_app\<lparr>current_index := 1\<rparr>) = Some s' \<and>
         map_option items (map_of (menu_data s') ''System Tools'') = Some [vim_tools_item])"
proof -
  let ?dev = "\<lparr>expanded = True, column = Some 3, colors = None, items = [vim_dev_item]\<rparr>"
  let ?tools = "\<lparr>expanded = True, column = Some 1, colors = None, items = [htop_item, vim_tools_item]\<rparr>"
  have in1: "vim_dev_item \<in> set (items ?dev)" by simp
  have e1: "remove1 vim_dev_item (items ?dev) = []" by simp
  obtain s1 where s1: "action_delete_item example_app = Some s1"
    and g1: "remove1 vim_dev_item (items ?dev) = [] \<longrightarrow>
              map_of (menu_data s1) (category vim_dev_item) = None \<and>
              (\<forall>new. category new = category vim_dev_item \<longrightarrow>
                 map_of (menu_data (add_new_item s1 new)) (category vim_dev_item) =
                   Some \<lparr>expanded = True, column = Some 1, colors = None, items = [new]\<rparr>)"
    using action_delete_item_removes [OF example_dev(1) example_dev(3) example_dev(4) in1] by blast
  have a: "map_of (menu_data s1) ''Dev'' = None"
    using g1 [THEN mp, OF e1, THEN conjunct1] by (simp only: example_dev(5))
  have b: "map_of (menu_data (add_new_item s1 vim_dev_item)) ''Dev'' =
           Some \<lparr>expanded = True, column = Some 1, colors = None, items = [vim_dev_item]\<rparr>"
    using g1 [THEN mp, OF e1, THEN conjunct2, THEN spec, of vim_dev_item]
    by (simp only: example_dev(5) simp_thms)
  have in2: "htop_item \<in> set (items ?tools)" by simp
  have ne2: "remove1 htop_item (items ?tools) \<noteq> []" by simp
  have r2: "remove1 htop_item (items ?tools) = [vim_tools_item]" by simp
  obtain s2 where s2: "action_delete_item (example_app\<lparr>current_index := 1\<rparr>) = Some s2"
    and g2: "remove1 htop_item (items ?tools) \<noteq> [] \<longrightarrow>
              map_option items (map_of (menu_data s2) (category htop_item)) =
                Some (remove1 htop_item (items ?tools))"
    using action_delete_item_removes [OF example_htop(1) example_htop(2) example_htop(3) in2] by blast
  have c: "map_option items (map_of (menu_data s2) ''System Tools'') = Some [vim_tools_item]"
    using g2 [THEN mp, OF ne2] unfolding r2 by (simp only: example_htop(4))
  have x1: "\<exists>s'. action_delete_item example_app = Some s' \<and>
         map_of (menu_data s') ''Dev'' = None \<and>
         map_of (menu_data (add_new_item s' vim_dev_item)) ''Dev'' =
           Some \<lparr>expanded = True, column = Some 1, colors = None, items = [vim_dev_item]\<rparr>"
    using s1 a b by (intro exI [of _ s1] conjI)
  have x2: "\<exists>s'. action_delete_item (example_app\<lparr>current_index := 1\<rparr>) = Some s' \<and>
         map_option items (map_of (menu_data s') ''System Tools'') = Some [vim_tools_item]"
    using s2 c by (intro exI [of _ s2] conjI)
  show ?thesis
    by (intro conjI example_dev(1) example_dev(3) example_dev(4) x1 example_htop(2) example_htop(3) x2)
qed

text \<open>
  C10 on the example state: the cursor is on the last of five entries; three entries are
  left after the deletion and the cursor is on index 1, not on the last index 2.
\<close>

theorem action_delete_item_cursor_witness:
  "0 \<le> current_index example_app \<and>
   current_index example_app < int (length (display_items example_app)) \<and>
   py_index (display_items example_app) (current_index example_app) = Some (Item vim_dev_item) \<and>
   map_of (menu_data example_app) (category vim_dev_item) =
     Some \<lparr>expanded = True, column = Some 3, colors = None, items = [vim_dev_item]\<rparr> \<and>
   current_index example_app = 4 \<and>
   (\<exists>s'. action_delete_item example_app = Some s' \<and>
         length (display_items s') = 3 \<and> current_index s' = 1)"
proof -
  let ?dev = "\<lparr>expanded = True, column = Some 3, colors = None, items = [vim_dev_item]\<rparr>"
  have in1: "vim_dev_item \<in> set (items ?dev)" by simp
  have i: "current_index example_app = 4" by (simp add: example_app_def)
  have len: "map_option (\<lambda>s'. length (display_items s')) (action_delete_item example_app) = Some 3"
    by code_simp
  obtain s1 where s1: "action_delete_item example_app = Some s1"
    and idx: "current_index s1 =
             (if int (length (display_items s1)) - 1 \<le> current_index example_app
              then max 0 (int (length (display_items s1)) - 2) else current_index example_app)"
    using action_delete_item_cursor [OF example_dev(2) example_dev(1) example_dev(3) example_dev(4) in1]
    by blast
  have l: "length (display_items s1) = 3" using len by (simp add: s1)
  have c: "current_index s1 = 1" using idx by (simp add: l i)
  have x: "\<exists>s'. action_delete_item example_app = Some s' \<and>
         length (display_items s') = 3 \<and> current_index s' = 1"
    using s1 l c by (intro exI [of _ s1] conjI)
  show ?thesis
    by (intro conjI example_dev(2) example_dev(1) example_dev(3) example_dev(4) i x)
qed

text \<open>
  Claim C1 at an input where the code does otherwise.  \<open>System Tools\<close> and \<open>Dev\<close> both
  hold an item \<open>Editor\<close> running \<open>vim\<close>.  Updating the one recorded in \<open>Dev\<close> removes the
  one in \<open>System Tools\<close>, the first match in tree order, and leaves the old item in
  \<open>Dev\<close> beside the new one.
\<close>

theorem update_item_removes_from_other_category:
  "category vim_dev_item = ''Dev'' \<and>
   map_option items (map_of (menu_data example_app) ''Dev'') = Some [vim_dev_item] \<and>
   map_option items (map_of (menu_data example_app) ''System Tools'') =
     Some [htop_item, vim_tools_item] \<and>
   map_option items
     (map_of (menu_data (update_item example_app vim_dev_item (vim_dev_item\<lparr>label := ''Vim''\<rparr>)))
        ''Dev'') = Some [vim_dev_item, vim_dev_item\<lparr>label := ''Vim''\<rparr>] \<and>
   map_option items
     (map_of (menu_data (update_item example_app vim_dev_item (vim_dev_item\<lparr>label := ''Vim''\<rparr>)))
        ''System Tools'') = Some [htop_item]"
proof -
  have 1: "category vim_dev_item = ''Dev''" by (simp add: vim_dev_item_def)
  have 2: "map_option items (map_of (menu_data example_app) ''Dev'') = Some [vim_dev_item]"
    by (simp add: example_app_def example_menu_def)
  have 3: "map_option items (map_of (menu_data example_app) ''System Tools'') =
     Some [htop_item, vim_tools_item]"
    by (simp add: example_app_def example_menu_def)
  have 4: "map_option items
     (map_of (menu_data (update_item example_app vim_dev_item (vim_dev_item\<lparr>label := ''Vim''\<rparr>)))
        ''Dev'') = Some [vim_dev_item, vim_dev_item\<lparr>label := ''Vim''\<rparr>]"
    by code_simp
  have 5: "map_option items
     (map_of (menu_data (update_item example_app vim_dev_item (vim_dev_item\<lparr>label := ''Vim''\<rparr>)))
        ''System Tools'') = Some [htop_item]"
    by code_simp
  show ?thesis by (intro conjI 1 2 3 4 5)
qed

text \<open>When no item of the tree matches, \<open>update_item\<close> changes nothing.\<close>

lemma pop_first_None: "pop_first P xs = None \<longleftrightarrow> (\<forall>x\<in>set xs. \<not> P x)"
  by (induction xs) auto

lemma pop_from_tree_None:
  "pop_from_tree P md = None \<longleftrightarrow> (\<forall>e\<in>set md. \<forall>x\<in>set (items (snd e)). \<not> P x)"
proof (induction md)
  case Nil
  then show ?case by simp
next
  case (Cons e md)
  show ?case
  proof (cases "pop_first P (items (snd e))")
    case None
    then have "\<forall>x\<in>set (items (snd e)). \<not> P x" by (simp only: pop_first_None)
    then show ?thesis using None Cons by simp
  next
    case (Some its)
    then have "\<not> (\<forall>x\<in>set (items (snd e)). \<not> P x)"
      using pop_first_None [of P "items (snd e)"] by simp
    then show ?thesis using Some by auto
  qed
qed

lemma update_item_no_match:
  assumes "\<forall>e\<in>set (menu_data s). \<forall>x\<in>set (items (snd e)).
             \<not> (label x = label old_item \<and> cmd x = cmd old_item)"
  shows "update_item s old_item new_item = s"
proof -
  have "pop_from_tree (\<lambda>it. label it = label old_item \<and> cmd it = cmd old_item) (menu_data s) = None"
    using assms by (simp only: pop_from_tree_None)
  then show ?thesis by (simp add: update_item_def)
qed

section \<open>Properties of renaming a category\<close>

lemma items_owned_after_display:
  assumes "items_owned (menu_data t)"
  shows "items_owned (menu_data (update_menu_display t))"
  using assms
  by (auto simp add: items_owned_def menu_after_display list_all_iff place_facts)

lemma restore_position_menu:
  "menu_data (restore_position_to_category s k) = menu_data s"
  "saves (restore_position_to_category s k) = saves s"
  by (simp_all add: restore_position_to_category_def split: option.splits)

lemma update_category_details_renamed:
  fixes s a b cd colors' column'
  assumes "map_of (menu_data s) a = Some cd" "b \<noteq> []" "b \<noteq> a" "map_of (menu_data s) b = None"
  defines "cd' \<equiv> cd\<lparr>column := Some (normalize_column_value s (case column' of Some v \<Rightarrow> v | None \<Rightarrow> get_column cd)),
                      colors := sanitize_color_pair colors',
                      items := map (\<lambda>it. it\<lparr>category := b\<rparr>) (items cd)\<rparr>"
  defines "t \<equiv> save_menu_data (s\<lparr>menu_data := AList.delete a (menu_data s) @ [(b, cd')]\<rparr>)"
  shows "menu_data (update_category_details s a b colors' column') = menu_data (update_menu_display t)"
    and "saves (update_category_details s a b colors' column') = saves (update_menu_display t)"
  using assms(1-4) unfolding cd'_def t_def
  by (simp_all add: update_category_details_def Let_def update_highlighting_fields restore_position_menu)

lemma items_owned_renamed:
  assumes "items_owned md" "list_all (\<lambda>it. category it = b) (items c)"
  shows "items_owned (AList.delete a md @ [(b, c)])"
  using assms by (auto simp add: items_owned_def list_all_iff AList.delete_eq)

lemma action_save_collision:
  assumes "py_strip (category_input f) \<noteq> old_category_name scr"
    and "py_strip (category_input f) \<in> set (existing_categories scr)"
  shows "isl (action_save scr f)"
    and "py_strip (category_input f) \<noteq> [] \<Longrightarrow>
         (normalize_hex_color (background_input f) = None) =
           (normalize_hex_color (text_input f) = None) \<Longrightarrow>
         action_save scr f = Inl ''Another category already uses that name.''"
  using assms by (auto simp add: action_save_def Let_def)

text \<open>
  Claim C4.
  \<^item> \<open>update_category_details\<close> from \<open>a\<close> to a new, non-empty name \<open>b\<close> that no
    category uses: afterwards no category is keyed \<open>a\<close>, the category keyed \<open>b\<close> holds
    the items of \<open>a\<close> with their \<open>category\<close> field set to \<open>b\<close>, every item still names
    its owner if that was so before (I4), and the configuration file has been written.
  \<^item> \<open>action_save\<close> of the dialog, when the name entered (stripped) differs from the
    name of the category edited and is the name of an existing category, returns an error
    message; with valid color inputs it is ``Another category already uses that name.''
  \<^item> Hence editing a category of the tree under such a name ends with a message and
    leaves the application state as it was.
\<close>

theorem rename_category_rekeys_and_rejects_collisions:
  "(map_of (menu_data s) a = Some cd \<and> items cd \<noteq> [] \<and> b \<noteq> [] \<and> b \<noteq> a \<and>
    map_of (menu_data s) b = None \<longrightarrow>
      map_of (menu_data (update_category_details s a b colors' column')) a = None \<and>
      map_option items (map_of (menu_data (update_category_details s a b colors' column')) b) =
        Some (map (\<lambda>it. it\<lparr>category := b\<rparr>) (items cd)) \<and>
      (items_owned (menu_data s) \<longrightarrow>
         items_owned (menu_data (update_category_details s a b colors' column'))) \<and>
      saves s < saves (update_category_details s a b colors' column')) \<and>
   (py_strip (category_input f) \<noteq> old_category_name scr \<and>
    py_strip (category_input f) \<in> set (existing_categories scr) \<longrightarrow>
      isl (action_save scr f) \<and>
      (py_strip (category_input f) \<noteq> [] \<and>
       (normalize_hex_color (background_input f) = None) =
         (normalize_hex_color (text_input f) = None) \<longrightarrow>
         action_save scr f = Inl ''Another category already uses that name.'')) \<and>
   (py_strip (category_input f) \<noteq> k \<and>
    py_strip (category_input f) \<in> fst ` set (menu_data s) \<longrightarrow>
      (\<exists>message. edit_category s k f = (Some message, s)))"
proof (intro conjI impI)
  assume h: "map_of (menu_data s) a = Some cd \<and> items cd \<noteq> [] \<and> b \<noteq> [] \<and> b \<noteq> a \<and>
    map_of (menu_data s) b = None"
  define cd' where "cd' = cd\<lparr>column := Some (normalize_column_value s (case column' of Some v \<Rightarrow> v | None \<Rightarrow> get_column cd)),
                      colors := sanitize_color_pair colors',
                      items := map (\<lambda>it. it\<lparr>category := b\<rparr>) (items cd)\<rparr>"
  define t where "t = save_menu_data (s\<lparr>menu_data := AList.delete a (menu_data s) @ [(b, cd')]\<rparr>)"
  have h1: "map_of (menu_data s) a = Some cd" and h2: "b \<noteq> []" and h3: "b \<noteq> a"
    and h4: "map_of (menu_data s) b = None"
    using h by simp_all
  have m: "menu_data (update_category_details s a b colors' column') = menu_data (update_menu_display t)"
    unfolding t_def cd'_def by (rule update_category_details_renamed(1) [OF h1 h2 h3 h4])
  have sv: "saves (update_category_details s a b colors' column') = saves (update_menu_display t)"
    unfolding t_def cd'_def by (rule update_category_details_renamed(2) [OF h1 h2 h3 h4])
  have t: "menu_data t = AList.delete a (menu_data s) @ [(b, cd')]" "saves t = saves s + 1"
    by (simp_all add: t_def save_menu_data_def)
  have h3': "a \<noteq> b" using h3 by simp
  have ta: "map_of (menu_data t) a = None"
    using h3' by (simp add: t delete_conv' map_add_def)
  have tb: "map_of (menu_data t) b = Some cd'"
    using h4 h3' by (simp add: t delete_conv' map_add_def)
  have ne: "items cd' \<noteq> []" using h by (simp add: cd'_def)
  show "map_of (menu_data (update_category_details s a b colors' column')) a = None"
    unfolding m using ta by (rule lookup_after_display_none)
  show "map_option items (map_of (menu_data (update_category_details s a b colors' column')) b) =
        Some (map (\<lambda>it. it\<lparr>category := b\<rparr>) (items cd))"
    unfolding m lookup_after_display_some [OF tb ne] by (simp add: cd'_def)
  show "saves s < saves (update_category_details s a b colors' column')"
    unfolding sv using saves_after_display [of t] by (simp add: t)
  assume o: "items_owned (menu_data s)"
  have "list_all (\<lambda>it. category it = b) (items cd')"
    by (simp add: cd'_def list_all_iff)
  then have "items_owned (menu_data t)"
    unfolding t by (rule items_owned_renamed [OF o])
  then show "items_owned (menu_data (update_category_details s a b colors' column'))"
    unfolding m by (rule items_owned_after_display)
next
  assume c: "py_strip (category_input f) \<noteq> old_category_name scr \<and>
    py_strip (category_input f) \<in> set (existing_categories scr)"
  show "isl (action_save scr f)"
    by (rule action_save_collision(1) [OF c [THEN conjunct1] c [THEN conjunct2]])
  assume d: "py_strip (category_input f) \<noteq> [] \<and>
       (normalize_hex_color (background_input f) = None) =
         (normalize_hex_color (text_input f) = None)"
  show "action_save scr f = Inl ''Another category already uses that name.''"
    by (rule action_save_collision(2) [OF c [THEN conjunct1] c [THEN conjunct2]
          d [THEN conjunct1] d [THEN conjunct2]])
next
  assume c: "py_strip (category_input f) \<noteq> k \<and>
    py_strip (category_input f) \<in> fst ` set (menu_data s)"
  let ?scr = "open_category_editor s k"
  have "old_category_name ?scr = k" "set (existing_categories ?scr) = fst ` set (menu_data s)"
    by (simp_all add: open_category_editor_def EditCategoryScreen_def)
  then have "isl (action_save ?scr f)" using c action_save_collision(1) [of f ?scr] by simp
  then obtain message where "action_save ?scr f = Inl message" by (cases "action_save ?scr f") auto
  then show "\<exists>message. edit_category s k f = (Some message, s)"
    by (simp add: edit_category_def)
qed

text \<open>
  C4 on the example state: \<open>Dev\<close> is renamed to \<open>Code\<close>; renaming \<open>Dev\<close> to
  \<open>System Tools\<close> is rejected.
\<close>

theorem rename_category_witness:
  "map_of (menu_data example_app) ''Dev'' =
     Some \<lparr>expanded = True, column = Some 3, colors = None, items = [vim_dev_item]\<rparr> \<and>
   map_of (menu_data example_app) ''Code'' = None \<and>
   items_owned (menu_data example_app) \<and>
   map_of (menu_data (update_category_details example_app ''Dev'' ''Code'' None (Some 2))) ''Dev'' = None \<and>
   map_option items
     (map_of (menu_data (update_category_details example_app ''Dev'' ''Code'' None (Some 2))) ''Code'') =
     Some [vim_dev_item\<lparr>category := ''Code''\<rparr>] \<and>
   items_owned (menu_data (update_category_details example_app ''Dev'' ''Code'' None (Some 2))) \<and>
   py_strip (category_input clash_form) = ''System Tools'' \<and>
   ''System Tools'' \<in> fst ` set (menu_data example_app) \<and>
   action_save (open_category_editor example_app ''Dev'') clash_form =
     Inl ''Another category already uses that name.'' \<and>
   (\<exists>message. edit_category example_app ''Dev'' clash_form = (Some message, example_app))"
proof -
  let ?dev = "\<lparr>expanded = True, column = Some 3, colors = None, items = [vim_dev_item]\<rparr>"
  let ?scr = "open_category_editor example_app ''Dev''"
  have a1: "map_of (menu_data example_app) ''Dev'' = Some ?dev"
    by (simp add: example_app_def example_menu_def)
  have a2: "map_of (menu_data example_app) ''Code'' = None"
    by (simp add: example_app_def example_menu_def)
  have a3: "items_owned (menu_data example_app)"
    by (simp add: example_app_def example_menu_def items_owned_def htop_item_def
        vim_tools_item_def vim_dev_item_def)
  have a4: "items ?dev \<noteq> []" by simp
  have a5: "''Code'' \<noteq> ([] :: string)" by simp
  have a6: "''Code'' \<noteq> ''Dev''" by simp
  note R = rename_category_rekeys_and_rejects_collisions
    [of example_app "''Dev''" ?dev "''Code''" None "Some 2", THEN conjunct1, THEN mp,
     OF conjI [OF a1 conjI [OF a4 conjI [OF a5 conjI [OF a6 a2]]]]]
  have r1: "map_of (menu_data (update_category_details example_app ''Dev'' ''Code'' None (Some 2))) ''Dev'' = None"
    by (rule R [THEN conjunct1])
  have r2: "map_option items
     (map_of (menu_data (update_category_details example_app ''Dev'' ''Code'' None (Some 2))) ''Code'') =
     Some [vim_dev_item\<lparr>category := ''Code''\<rparr>]"
    using R [THEN conjunct2, THEN conjunct1] by simp
  have r3: "items_owned (menu_data (update_category_details example_app ''Dev'' ''Code'' None (Some 2)))"
    by (rule R [THEN conjunct2, THEN conjunct2, THEN conjunct1, THEN mp, OF a3])
  have b1: "py_strip (category_input clash_form) = ''System Tools''"
    unfolding clash_form_def by code_simp
  have b2: "''System Tools'' \<in> fst ` set (menu_data example_app)"
    by (simp add: example_app_def example_menu_def)
  have b3: "py_strip (category_input clash_form) \<noteq> old_category_name ?scr \<and>
    py_strip (category_input clash_form) \<in> set (existing_categories ?scr)"
    unfolding b1 by (simp add: open_category_editor_def EditCategoryScreen_def example_app_def
        example_menu_def)
  have b4: "py_strip (category_input clash_form) \<noteq> [] \<and>
       (normalize_hex_color (background_input clash_form) = None) =
         (normalize_hex_color (text_input clash_form) = None)"
    unfolding b1 by (simp add: clash_form_def)
  have r4: "action_save ?scr clash_form = Inl ''Another category already uses that name.''"
    by (rule rename_category_rekeys_and_rejects_collisions
          [where f = clash_form and scr = ?scr, THEN conjunct2, THEN conjunct1, THEN mp, OF b3,
           THEN conjunct2, THEN mp, OF b4])
  have b5: "py_strip (category_input clash_form) \<noteq> ''Dev'' \<and>
    py_strip (category_input clash_form) \<in> fst ` set (menu_data example_app)"
    unfolding b1 using b2 by simp
  have r5: "\<exists>message. edit_category example_app ''Dev'' clash_form = (Some message, example_app)"
    by (rule rename_category_rekeys_and_rejects_collisions
          [where f = clash_form and s = example_app and k = "''Dev''",
           THEN conjunct2, THEN conjunct2, THEN mp, OF b5])
  show ?thesis by (intro conjI a1 a2 a3 r1 r2 r3 b1 b2 r4 r5)
qed

section \<open>Properties of the loader\<close>

lemma create_default_menu_fell_back: "fell_back (create_default_menu s)"
  by (simp add: fell_back_def create_default_menu_def boot_save_menu_data_def saved_document_def)

lemma ensure_default:
  "boot_menu_data s = default_data \<Longrightarrow> boot_column_count s = 1 \<Longrightarrow>
   boot_ensure_category_columns s = (None, False, s)"
  by (simp add: boot_ensure_category_columns_def default_data_def int_or_one_def
      differs_from_int_def)

lemma load_menu_data_raised:
  "fst (load_body s) \<noteq> None \<Longrightarrow> load_menu_data s = create_default_menu (snd (load_body s))"
  by (cases "load_body s") (auto simp add: load_menu_data_def)

lemma ensure_loop_obj:
  "fst (ensure_loop n ((k, JObj flds) # rest)) = fst (ensure_loop n rest)"
  by (simp add: Let_def split: prod.splits)

lemma ensure_loop_not_obj:
  "\<not> is_obj v \<Longrightarrow> fst (ensure_loop n ((k, v) # rest)) = Some AttributeError"
  by (cases v) (simp_all add: is_obj_def)

lemma ensure_loop_bad:
  "list_ex (\<lambda>kv. \<not> is_obj (snd kv)) cats \<Longrightarrow> fst (ensure_loop n cats) \<noteq> None"
proof (induction cats)
  case Nil
  then show ?case by simp
next
  case (Cons kv cats)
  obtain k v where kv: "kv = (k, v)" by (cases kv)
  show ?case
  proof (cases "is_obj v")
    case False
    then show ?thesis unfolding kv by (simp add: ensure_loop_not_obj del: ensure_loop.simps)
  next
    case True
    then obtain flds where v: "v = JObj flds" by (cases v) (simp_all add: is_obj_def)
    have "list_ex (\<lambda>kv. \<not> is_obj (snd kv)) cats" using Cons.prems True kv by simp
    then have "fst (ensure_loop n cats) \<noteq> None" by (rule Cons.IH)
    then show ?thesis unfolding kv v by (simp add: ensure_loop_obj del: ensure_loop.simps)
  qed
qed

lemma ensure_fst:
  "fst (boot_ensure_category_columns s) =
     (case boot_menu_data s of JObj cats \<Rightarrow> fst (ensure_loop (boot_column_count s) cats)
      | _ \<Rightarrow> Some AttributeError)"
  by (cases "boot_menu_data s")
     (simp_all add: boot_ensure_category_columns_def split: prod.splits)

lemma ensure_bad:
  "bad_tree (boot_menu_data s) \<Longrightarrow> fst (boot_ensure_category_columns s) \<noteq> None"
  unfolding ensure_fst
  by (cases "boot_menu_data s") (simp_all add: bad_tree_def ensure_loop_bad)

lemma ensure_case_raised:
  assumes "bad_tree (boot_menu_data t)"
  shows "fst (case boot_ensure_category_columns t of
                (Some e, _, s3) \<Rightarrow> (Some e, s3)
              | (None, _, s3) \<Rightarrow> f s3) \<noteq> None"
proof -
  have "fst (boot_ensure_category_columns t) \<noteq> None" using assms by (rule ensure_bad)
  then show ?thesis by (cases "boot_ensure_category_columns t") auto
qed

lemma load_settings_bad:
  assumes bad: "bad_tree (boot_menu_data s)"
  shows "fst (load_settings s flds) \<noteq> None \<or>
         boot_menu_data (snd (load_settings s flds)) = boot_menu_data s"
proof (cases "map_of flds ''app_settings''")
  case None
  then show ?thesis by (simp add: load_settings_def)
next
  case (Some settings)
  show ?thesis
  proof (cases "py_contains ''title'' settings")
    case (Inl e)
    then show ?thesis by (simp add: load_settings_def Some)
  next
    case (Inr has_title)
    show ?thesis
    proof (cases "if has_title then py_subscript settings ''title'' else Inr (boot_app_title s)")
      case (Inl e)
      then show ?thesis by (simp add: load_settings_def Some Inr)
    next
      case title: (Inr title')
      show ?thesis
      proof (cases "py_get settings ''columns'' (JNum 1)")
        case (Inl e)
        then show ?thesis by (simp add: load_settings_def Some Inr title Let_def)
      next
        case count: (Inr count)
        let ?t = "s\<lparr>boot_app_title := title',
                    boot_column_count := max 1 (min (boot_max_columns s) (int_or_one count))\<rparr>"
        have "bad_tree (boot_menu_data ?t)" using bad by simp
        then show ?thesis
          using ensure_case_raised [of ?t]
          by (simp add: load_settings_def Some Inr title count Let_def)
      qed
    qed
  qed
qed

lemma load_document_bad:
  assumes get: "py_get data ''categories'' (JObj []) = Inr cats" and bad: "bad_tree cats"
  shows "fst (load_document s data) \<noteq> None \<or>
         bad_tree (boot_menu_data (snd (load_document s data)))"
proof -
  obtain flds where data: "data = JObj flds"
    using get by (cases data) (simp_all add: py_get_def)
  show ?thesis
  proof (cases "py_get data ''custom_colors'' (JArr [])")
    case (Inl e)
    then show ?thesis by (simp add: load_document_def get Let_def)
  next
    case colors: (Inr colors_value)
    show ?thesis
    proof (cases "py_iterate colors_value")
      case (Inl e)
      then show ?thesis by (simp add: load_document_def get colors Let_def)
    next
      case (Inr entries)
      let ?t = "if load_colors 1 entries \<noteq> []
                then s\<lparr>boot_menu_data := cats, boot_custom_colors := load_colors 1 entries\<rparr>
                else s\<lparr>boot_menu_data := cats\<rparr>"
      have t: "boot_menu_data ?t = cats" by simp
      have doc: "load_document s data = load_settings ?t flds"
        using get colors Inr unfolding data by (simp add: load_document_def Let_def)
      have "bad_tree (boot_menu_data ?t)" using bad by (simp only: t)
      then have "fst (load_settings ?t flds) \<noteq> None \<or>
         boot_menu_data (snd (load_settings ?t flds)) = boot_menu_data ?t"
        by (rule load_settings_bad)
      then show ?thesis unfolding doc using bad by (auto simp only: t)
    qed
  qed
qed

lemma load_body_shape_raises:
  assumes "file_read s = Some (Document data)" "shape_raises data"
  shows "fst (load_body s) \<noteq> None"
proof -
  define s0 where "s0 = (if old_config s \<noteq> None \<and> config s = None
                then s\<lparr>config := old_config s, old_config := None\<rparr> else s)"
  have c: "config s0 = Some (Document data)"
    using assms(1) by (auto simp add: s0_def file_read_def split: if_splits)
  have body: "load_body s =
      (case load_document s0 data of
         (Some e, s1) \<Rightarrow> (Some e, s1)
       | (None, s1) \<Rightarrow>
           (case boot_ensure_category_columns s1 of
              (Some e, _, s2) \<Rightarrow> (Some e, s2)
            | (None, changed, s2) \<Rightarrow> (None, if changed then boot_save_menu_data s2 else s2)))"
    unfolding load_body_def s0_def [symmetric] Let_def c
    by (cases "load_document s0 data") (auto split: option.splits)
  show ?thesis
  proof (cases "py_get data ''categories'' (JObj [])")
    case (Inl e)
    then have "fst (load_document s0 data) \<noteq> None" by (simp add: load_document_def)
    then show ?thesis unfolding body by (cases "load_document s0 data") auto
  next
    case (Inr cats)
    then have bad: "bad_tree cats"
      using assms(2)
      by (cases data) (auto simp add: shape_raises_def py_get_def bad_tree_def split: option.splits)
    have d: "fst (load_document s0 data) \<noteq> None \<or>
         bad_tree (boot_menu_data (snd (load_document s0 data)))"
      using Inr bad by (rule load_document_bad)
    obtain err s1 where l: "load_document s0 data = (err, s1)" by (cases "load_document s0 data")
    show ?thesis
    proof (cases err)
      case (Some e)
      then show ?thesis unfolding body l by simp
    next
      case None
      then have "bad_tree (boot_menu_data s1)" using d l by simp
      then have "fst (boot_ensure_category_columns s1) \<noteq> None" by (rule ensure_bad)
      then show ?thesis
        unfolding body l None by (cases "boot_ensure_category_columns s1") auto
    qed
  qed
qed

lemma load_missing:
  assumes "file_read s = None"
  shows "load_menu_data s = create_default_menu s"
proof -
  have c: "config s = None" "old_config s = None"
    using assms by (auto simp add: file_read_def split: if_splits)
  have d: "boot_menu_data (create_default_menu s) = default_data"
    "boot_column_count (create_default_menu s) = 1"
    by (simp_all add: create_default_menu_def boot_save_menu_data_def)
  have "load_body s = (None, create_default_menu s)"
    by (simp add: load_body_def c Let_def ensure_default [OF d])
  then show ?thesis by (simp add: load_menu_data_def)
qed

lemma load_unreadable:
  assumes "file_read s = Some Unreadable"
  shows "fst (load_body s) \<noteq> None"
  using assms by (auto simp add: load_body_def file_read_def Let_def split: if_splits)

lemma fell_back_raised: "fst (load_body s) \<noteq> None \<Longrightarrow> fell_back (load_menu_data s)"
proof -
  assume "fst (load_body s) \<noteq> None"
  then have "load_menu_data s = create_default_menu (snd (load_body s))"
    by (rule load_menu_data_raised)
  then show ?thesis by (simp only: create_default_menu_fell_back)
qed

lemma default_data_shape:
  "\<exists>c i. default_data = JObj [(''System Tools'', JObj c)] \<and>
      map_of c ''column'' = Some (JNum 1) \<and>
      map_of c ''items'' = Some (JArr [JObj i]) \<and>
      map_of i ''label'' = Some (JStr ''System Monitor'')"
  by (simp add: default_data_def)

text \<open>
  Claim C2, as the code has it.  \<open>load_menu_data\<close> ends with the default tree resident,
  the column count 1, and the default tree written to the configuration file
  (\<open>fell_back\<close>)
  \<^item> when neither the configuration file nor the legacy file exists,
  \<^item> when the file it reads cannot be parsed,
  \<^item> whenever loading the parsed content raises an exception, and
  \<^item> in particular when the document is not an object, when what it holds under
    \<open>categories\<close> is not an object, or when one of the categories is not an object.
  The default tree is the one category \<open>System Tools\<close>, with column 1 and the one item
  labelled \<open>System Monitor\<close>.  Content that is parsed and loaded without an exception
  is kept, whatever its structure.
\<close>

theorem load_menu_data_fallback:
  "(file_read s = None \<longrightarrow> fell_back (load_menu_data s)) \<and>
   (file_read s = Some Unreadable \<longrightarrow> fell_back (load_menu_data s)) \<and>
   (fst (load_body s) \<noteq> None \<longrightarrow> fell_back (load_menu_data s)) \<and>
   (\<forall>data. file_read s = Some (Document data) \<and> shape_raises data \<longrightarrow>
      fell_back (load_menu_data s)) \<and>
   (fst (load_body s) = None \<longrightarrow> load_menu_data s = snd (load_body s)) \<and>
   (\<exists>c i. default_data = JObj [(''System Tools'', JObj c)] \<and>
      map_of c ''column'' = Some (JNum 1) \<and>
      map_of c ''items'' = Some (JArr [JObj i]) \<and>
      map_of i ''label'' = Some (JStr ''System Monitor''))"
proof (intro conjI impI allI)
  assume "file_read s = None"
  then show "fell_back (load_menu_data s)"
    by (simp only: load_missing create_default_menu_fell_back)
next
  assume "file_read s = Some Unreadable"
  then have "fst (load_body s) \<noteq> None" by (rule load_unreadable)
  then show "fell_back (load_menu_data s)" by (rule fell_back_raised)
next
  assume "fst (load_body s) \<noteq> None"
  then show "fell_back (load_menu_data s)" by (rule fell_back_raised)
next
  fix data
  assume "file_read s = Some (Document data) \<and> shape_raises data"
  then have "fst (load_body s) \<noteq> None" using load_body_shape_raises by blast
  then show "fell_back (load_menu_data s)" by (rule fell_back_raised)
next
  assume "fst (load_body s) = None"
  then show "load_menu_data s = snd (load_body s)"
    by (cases "load_body s") (simp add: load_menu_data_def)
next
  show "\<exists>c i. default_data = JObj [(''System Tools'', JObj c)] \<and>
      map_of c ''column'' = Some (JNum 1) \<and>
      map_of c ''items'' = Some (JArr [JObj i]) \<and>
      map_of i ''label'' = Some (JStr ''System Monitor'')"
    by (rule default_data_shape)
qed

text \<open>
  The statement of C2 with no file at all, with a file that is not JSON, with a document
  that is a list, with a legacy file whose category is a list, and with a document that
  loads without an exception.
\<close>

theorem load_menu_data_fallback_witness:
  "file_read (fresh_loader None None) = None \<and>
   fell_back (load_menu_data (fresh_loader None None)) \<and>
   file_read (fresh_loader None (Some Unreadable)) = Some Unreadable \<and>
   fell_back (load_menu_data (fresh_loader None (Some Unreadable))) \<and>
   fst (load_body (fresh_loader None (Some (Document (JArr []))))) \<noteq> None \<and>
   fell_back (load_menu_data (fresh_loader None (Some (Document (JArr []))))) \<and>
   file_read (fresh_loader (Some (Document flat_document)) None) = Some (Document flat_document) \<and>
   shape_raises flat_document \<and>
   fell_back (load_menu_data (fresh_loader (Some (Document flat_document)) None)) \<and>
   fst (load_body (fresh_loader None (Some (Document broken_document)))) = None \<and>
   load_menu_data (fresh_loader None (Some (Document broken_document))) =
     snd (load_body (fresh_loader None (Some (Document broken_document))))"
proof -
  have h1: "file_read (fresh_loader None None) = None" by code_simp
  have h2: "file_read (fresh_loader None (Some Unreadable)) = Some Unreadable" by code_simp
  have h3: "fst (load_body (fresh_loader None (Some (Document (JArr []))))) \<noteq> None"
    by code_simp
  have h4: "file_read (fresh_loader (Some (Document flat_document)) None) =
      Some (Document flat_document)"
    by (simp add: file_read_def fresh_loader_def)
  have h5: "shape_raises flat_document" by code_simp
  have h6: "fst (load_body (fresh_loader None (Some (Document broken_document)))) = None"
    by code_simp
  have r1: "fell_back (load_menu_data (fresh_loader None None))"
    by (rule load_menu_data_fallback [of "fresh_loader None None", THEN conjunct1, THEN mp,
          OF h1])
  have r2: "fell_back (load_menu_data (fresh_loader None (Some Unreadable)))"
    by (rule load_menu_data_fallback [of "fresh_loader None (Some Unreadable)",
          THEN conjunct2, THEN conjunct1, THEN mp, OF h2])
  have r3: "fell_back (load_menu_data (fresh_loader None (Some (Document (JArr [])))))"
    by (rule load_menu_data_fallback [of "fresh_loader None (Some (Document (JArr [])))",
          THEN conjunct2, THEN conjunct2, THEN conjunct1, THEN mp, OF h3])
  have r4: "fell_back (load_menu_data (fresh_loader (Some (Document flat_document)) None))"
    by (rule load_menu_data_fallback [of "fresh_loader (Some (Document flat_document)) None",
          THEN conjunct2, THEN conjunct2, THEN conjunct2, THEN conjunct1, THEN spec, THEN mp,
          OF conjI [OF h4 h5]])
  have r5: "load_menu_data (fresh_loader None (Some (Document broken_document))) =
     snd (load_body (fresh_loader None (Some (Document broken_document))))"
    by (rule load_menu_data_fallback [of "fresh_loader None (Some (Document broken_document))",
          THEN conjunct2, THEN conjunct2, THEN conjunct2, THEN conjunct2, THEN conjunct1,
          THEN mp, OF h6])
  show ?thesis by (intro conjI h1 r1 h2 r2 h3 r3 h4 h5 r4 h6 r5)
qed

text \<open>
  C2 as the specification words it fails for content that is structurally invalid and
  raises nothing while it is loaded: a category whose \<open>items\<close> is the number 7 stays
  resident, and the file is left as it was.
\<close>

theorem load_menu_data_keeps_invalid_counterexample:
  "\<not> structurally_valid broken_document \<and>
   file_read (fresh_loader None (Some (Document broken_document))) =
     Some (Document broken_document) \<and>
   \<not> fell_back (load_menu_data (fresh_loader None (Some (Document broken_document)))) \<and>
   boot_menu_data (load_menu_data (fresh_loader None (Some (Document broken_document)))) =
     JObj [(''Broken'',
        JObj [(''expanded'', JBool True), (''column'', JNum 1), (''items'', JNum 7)])] \<and>
   config (load_menu_data (fresh_loader None (Some (Document broken_document)))) =
     Some (Document broken_document) \<and>
   writes (load_menu_data (fresh_loader None (Some (Document broken_document)))) = 0"
proof -
  have l: "load_menu_data (fresh_loader None (Some (Document broken_document))) =
     (fresh_loader None (Some (Document broken_document)))
       \<lparr>boot_menu_data := JObj [(''Broken'',
           JObj [(''expanded'', JBool True), (''column'', JNum 1), (''items'', JNum 7)])],
        boot_app_title := JStr ''T''\<rparr>"
    by code_simp
  have c1: "\<not> structurally_valid broken_document" by code_simp
  have c2: "file_read (fresh_loader None (Some (Document broken_document))) =
     Some (Document broken_document)"
    by (simp add: file_read_def fresh_loader_def)
  have c3: "\<not> fell_back (load_menu_data (fresh_loader None (Some (Document broken_document))))"
    by code_simp
  have c4: "boot_menu_data (load_menu_data (fresh_loader None (Some (Document broken_document)))) =
     JObj [(''Broken'',
        JObj [(''expanded'', JBool True), (''column'', JNum 1), (''items'', JNum 7)])]"
    unfolding l by simp
  have c5: "config (load_menu_data (fresh_loader None (Some (Document broken_document)))) =
     Some (Document broken_document)"
    unfolding l by (simp add: fresh_loader_def)
  have c6: "writes (load_menu_data (fresh_loader None (Some (Document broken_document)))) = 0"
    unfolding l by (simp add: fresh_loader_def)
  show ?thesis by (intro conjI c1 c2 c3 c4 c5 c6)
qed

end
